theory Spec2Isabelle
  imports Main "HOL-Library.List_Lexorder" "HOL-Library.Sublist"
begin

section \<open>JavaScript strings\<close>

text \<open>
  A JavaScript string is a sequence of UTF-16 code units. The code units are modelled as
  natural numbers, so that the white space that \<open>trim\<close> removes, the character classes of
  the regular expressions and the code-unit order of \<open>Array.prototype.sort\<close> are the
  ones of the source. \<open>js\<close> turns an ASCII literal into such a string.
\<close>

type_synonym jsstring = "nat list"

definition js :: "string \<Rightarrow> jsstring" where
  "js s = map of_char s"

text \<open>
  \<open>String.prototype.trim\<close> strips WhiteSpace and LineTerminator code points from both
  ends: TAB, LF, VT, FF, CR, SP, NBSP, U+1680, U+2000..U+200A, U+2028, U+2029, U+202F,
  U+205F, U+3000 and U+FEFF.
\<close>

definition isWhiteSpace :: "nat \<Rightarrow> bool" where
  "isWhiteSpace c =
     (c = 0x09 \<or> c = 0x0A \<or> c = 0x0B \<or> c = 0x0C \<or> c = 0x0D \<or> c = 0x20 \<or> c = 0xA0
      \<or> c = 0x1680 \<or> (0x2000 \<le> c \<and> c \<le> 0x200A) \<or> c = 0x2028 \<or> c = 0x2029
      \<or> c = 0x202F \<or> c = 0x205F \<or> c = 0x3000 \<or> c = 0xFEFF)"

definition trim :: "jsstring \<Rightarrow> jsstring" where
  "trim s = rev (dropWhile isWhiteSpace (rev (dropWhile isWhiteSpace s)))"

text \<open>
  \<open>String.prototype.toUpperCase\<close>, as it acts on ASCII letters; every other code unit is
  kept. The validators only ask whether the result is one of the reserved names, and
  Unicode upper-casing turns no code unit above 0x7f into a string of the letters and
  digits these names are made of, so that test is the one of the source.
\<close>

definition upperUnit :: "nat \<Rightarrow> nat" where
  "upperUnit c = (if 0x61 \<le> c \<and> c \<le> 0x7A then c - 0x20 else c)"

definition toUpperCase :: "jsstring \<Rightarrow> jsstring" where
  "toUpperCase s = map upperUnit s"

text \<open>
  \<open>String.prototype.toLowerCase\<close>: ASCII capitals, and the two code units above 0x7f
  whose lower-case form has an ASCII letter (U+0130 and U+212A). The lower-case forms of
  all other code units lie above 0x7f, and the only callers, \<open>toSnakeCase\<close> and
  \<open>toKebabCase\<close>, overwrite every such unit afterwards.
\<close>

definition lowerUnit :: "nat \<Rightarrow> nat" where
  "lowerUnit c = (if 0x41 \<le> c \<and> c \<le> 0x5A then c + 0x20 else c)"

definition lowerUnits :: "nat \<Rightarrow> jsstring" where
  "lowerUnits c =
     (if c = 0x130 then [0x69, 0x307] else if c = 0x212A then [0x6B] else [lowerUnit c])"

definition toLowerCase :: "jsstring \<Rightarrow> jsstring" where
  "toLowerCase s = concat (map lowerUnits s)"

text \<open>\<open>String.prototype.startsWith\<close> and \<open>String.prototype.includes\<close>.\<close>

fun startsWith :: "jsstring \<Rightarrow> jsstring \<Rightarrow> bool" where
  "startsWith s [] = True"
| "startsWith [] (p # ps) = False"
| "startsWith (c # cs) (p # ps) = (c = p \<and> startsWith cs ps)"

fun includes_js :: "jsstring \<Rightarrow> jsstring \<Rightarrow> bool" where
  "includes_js [] p = startsWith [] p"
| "includes_js (c # cs) p = (startsWith (c # cs) p \<or> includes_js cs p)"

section \<open>Project-name validation (utils)\<close>

text \<open>The character class \<open>[<>:"/\\|?*\x00-\x1f]\<close> of \<open>invalidChars\<close>.\<close>

definition invalidChars :: "nat \<Rightarrow> bool" where
  "invalidChars c =
     (c = 0x3C \<or> c = 0x3E \<or> c = 0x3A \<or> c = 0x22 \<or> c = 0x2F \<or> c = 0x5C \<or> c = 0x7C
      \<or> c = 0x3F \<or> c = 0x2A \<or> c \<le> 0x1F)"

text \<open>\<open>invalidChars.test(name)\<close>: some code unit of the name is in the class.\<close>

definition invalidChars_test :: "jsstring \<Rightarrow> bool" where
  "invalidChars_test name = list_ex invalidChars name"

definition reservedNames :: "jsstring list" where
  "reservedNames = map js
     [''CON'', ''PRN'', ''AUX'', ''NUL'',
      ''COM1'', ''COM2'', ''COM3'', ''COM4'', ''COM5'', ''COM6'', ''COM7'', ''COM8'', ''COM9'',
      ''LPT1'', ''LPT2'', ''LPT3'', ''LPT4'', ''LPT5'', ''LPT6'', ''LPT7'', ''LPT8'', ''LPT9'']"

definition validateProjectName :: "jsstring \<Rightarrow> bool" where
  "validateProjectName name =
     (if name = [] \<or> trim name = [] then False
      else if invalidChars_test name then False
      else if toUpperCase name \<in> set reservedNames then False
      else True)"

definition getProjectNameError :: "jsstring \<Rightarrow> jsstring option" where
  "getProjectNameError name =
     (if name = [] \<or> trim name = [] then Some (js ''Project name cannot be empty'')
      else if invalidChars_test name then Some (js ''Project name contains invalid characters'')
      else if toUpperCase name \<in> set reservedNames
        then Some (js ''Project name is a reserved name'')
      else None)"

subsection \<open>The rule of the specification, in its own words\<close>

text \<open>
  A name is blank when it is empty or consists of white space only; it has a forbidden
  character when one of its code units is one of the nine listed characters or a control
  character; it is reserved when it equals a reserved device name up to the case of its
  letters.
\<close>

definition blankName :: "jsstring \<Rightarrow> bool" where
  "blankName n = list_all isWhiteSpace n"

definition forbiddenChar :: "nat \<Rightarrow> bool" where
  "forbiddenChar c = (c \<in> set (js ''/:*<>|?'' @ [0x5C, 0x22]) \<or> c < 0x20)"

definition hasForbiddenChar :: "jsstring \<Rightarrow> bool" where
  "hasForbiddenChar n = list_ex forbiddenChar n"

definition equalIgnoringCase :: "jsstring \<Rightarrow> jsstring \<Rightarrow> bool" where
  "equalIgnoringCase a b = (map lowerUnit a = map lowerUnit b)"

definition reservedName :: "jsstring \<Rightarrow> bool" where
  "reservedName n = list_ex (equalIgnoringCase n) reservedNames"

definition invalidName :: "jsstring \<Rightarrow> bool" where
  "invalidName n = (blankName n \<or> hasForbiddenChar n \<or> reservedName n)"

section \<open>Template copy filter (BaseGenerator.copyTemplate)\<close>

text \<open>
  \<open>path.basename\<close> on a POSIX path: trailing separators are dropped, and the base name
  is what follows the last remaining separator.
\<close>

definition basename :: "jsstring \<Rightarrow> jsstring" where
  "basename p = rev (takeWhile (\<lambda>c. c \<noteq> 0x2F) (dropWhile (\<lambda>c. c = 0x2F) (rev p)))"

text \<open>The \<open>filter\<close> callback handed to \<open>fs.copy\<close>: \<open>True\<close> keeps the entry.\<close>

definition copyFilter :: "jsstring \<Rightarrow> bool" where
  "copyFilter src =
     (let basename = basename src
      in \<not> startsWith basename (js ''.'') \<or> basename = js ''.gitignore'')"

section \<open>Generator registry\<close>

text \<open>
  \<open>generatorMap\<close> is a \<open>Map\<close> from the key \<open>language:framework\<close> to a constructor.
  The registry functions are modelled over any such map; \<open>construct\<close> stands for
  \<open>new GeneratorClass()\<close>. A thrown \<open>Error\<close> is the left summand, with its message; the
  other values of \<open>error\<close> are the system errors that the file operations below raise.
\<close>

datatype error = Error jsstring | ENOENT | ENOTDIR | EISDIR | EACCES | EEXIST | ENXIO

datatype generatorClass = FastAPIGenerator | ExpressGenerator

record generator =
  gen_templateDir :: jsstring
  gen_language :: jsstring
  gen_framework :: jsstring

fun construct :: "generatorClass \<Rightarrow> generator" where
  "construct FastAPIGenerator =
     \<lparr>gen_templateDir = js ''python/fastapi'', gen_language = js ''python'',
      gen_framework = js ''fastapi''\<rparr>"
| "construct ExpressGenerator =
     \<lparr>gen_templateDir = js ''js/express'', gen_language = js ''js'',
      gen_framework = js ''express''\<rparr>"

definition generatorMap :: "jsstring \<rightharpoonup> generatorClass" where
  "generatorMap =
     [js ''python'' @ js '':'' @ js ''fastapi'' \<mapsto> FastAPIGenerator,
      js ''js'' @ js '':'' @ js ''express'' \<mapsto> ExpressGenerator]"

definition getGenerator ::
  "(jsstring \<rightharpoonup> 'c) \<Rightarrow> ('c \<Rightarrow> 'g) \<Rightarrow> jsstring \<Rightarrow> jsstring \<Rightarrow> error + 'g" where
  "getGenerator gmap new language framework =
     (let key = language @ js '':'' @ framework
      in case gmap key of
           None \<Rightarrow> Inl (Error (js ''No generator found for '' @ language @ js '':'' @ framework))
         | Some GeneratorClass \<Rightarrow> Inr (new GeneratorClass))"

definition hasGenerator :: "(jsstring \<rightharpoonup> 'c) \<Rightarrow> jsstring \<Rightarrow> jsstring \<Rightarrow> bool" where
  "hasGenerator gmap language framework =
     (let key = language @ js '':'' @ framework in gmap key \<noteq> None)"

definition registerGenerator ::
  "(jsstring \<rightharpoonup> 'c) \<Rightarrow> jsstring \<Rightarrow> jsstring \<Rightarrow> 'c \<Rightarrow> (jsstring \<rightharpoonup> 'c)" where
  "registerGenerator gmap language framework GeneratorClass =
     (let key = language @ js '':'' @ framework in gmap(key \<mapsto> GeneratorClass))"

section \<open>Project options and the Python option catalogue\<close>

text \<open>
  \<open>ProjectOptions\<close> maps an option key to a boolean or a string; a key that is absent
  reads as \<open>undefined\<close>. \<open>truthy\<close> is JavaScript's conversion to boolean, as used by
  \<open>if (opts.key)\<close>; \<open>notFalse\<close> is the test \<open>opts.key !== false\<close>.
\<close>

datatype optionValue = Boolean bool | String jsstring

type_synonym projectOptions = "jsstring \<rightharpoonup> optionValue"

fun truthy :: "optionValue option \<Rightarrow> bool" where
  "truthy None = False"
| "truthy (Some (Boolean b)) = b"
| "truthy (Some (String s)) = (s \<noteq> [])"

definition notFalse :: "optionValue option \<Rightarrow> bool" where
  "notFalse v = (v \<noteq> Some (Boolean False))"

record pythonOption =
  opt_key :: jsstring
  opt_name :: jsstring
  opt_description :: jsstring
  opt_default :: "bool option"
  opt_dependencies :: "jsstring list option"

definition PYTHON_OPTIONS :: "pythonOption list" where
  "PYTHON_OPTIONS =
    [\<lparr>opt_key = js ''orm'', opt_name = js ''ORM (SQLAlchemy)'',
      opt_description = js ''Add SQLAlchemy ORM for database operations'',
      opt_default = Some False, opt_dependencies = Some [js ''sqlalchemy'']\<rparr>,
     \<lparr>opt_key = js ''migrations'', opt_name = js ''Database Migrations (Alembic)'',
      opt_description = js ''Add Alembic for database migrations'',
      opt_default = Some False, opt_dependencies = Some [js ''alembic'']\<rparr>,
     \<lparr>opt_key = js ''docker'', opt_name = js ''Docker Support'',
      opt_description = js ''Add Dockerfile for containerization'',
      opt_default = Some False, opt_dependencies = None\<rparr>,
     \<lparr>opt_key = js ''dockerCompose'', opt_name = js ''Docker Compose'',
      opt_description = js ''Add docker-compose.yml for multi-container setup'',
      opt_default = Some False, opt_dependencies = None\<rparr>,
     \<lparr>opt_key = js ''tests'', opt_name = js ''Testing Framework (pytest)'',
      opt_description = js ''Add pytest for testing'',
      opt_default = Some True,
      opt_dependencies = Some [js ''pytest'', js ''pytest-asyncio'', js ''httpx'']\<rparr>,
     \<lparr>opt_key = js ''envFiles'', opt_name = js ''Environment Files (.env)'',
      opt_description = js ''Add .env.example and environment configuration'',
      opt_default = Some True, opt_dependencies = Some [js ''python-dotenv'']\<rparr>,
     \<lparr>opt_key = js ''prodConfig'', opt_name = js ''Production Configuration'',
      opt_description = js ''Add production-ready settings and configurations'',
      opt_default = Some False, opt_dependencies = None\<rparr>,
     \<lparr>opt_key = js ''devConfig'', opt_name = js ''Development Configuration'',
      opt_description = js ''Add development settings and hot-reload'',
      opt_default = Some True, opt_dependencies = None\<rparr>,
     \<lparr>opt_key = js ''linter'', opt_name = js ''Linter (ruff/flake8)'',
      opt_description = js ''Add code linting with ruff or flake8'',
      opt_default = Some True, opt_dependencies = Some [js ''ruff'']\<rparr>,
     \<lparr>opt_key = js ''formatter'', opt_name = js ''Code Formatter (black)'',
      opt_description = js ''Add black for code formatting'',
      opt_default = Some True, opt_dependencies = Some [js ''black'']\<rparr>,
     \<lparr>opt_key = js ''preCommit'', opt_name = js ''Pre-commit Hooks'',
      opt_description = js ''Add pre-commit hooks for code quality'',
      opt_default = Some False, opt_dependencies = Some [js ''pre-commit'']\<rparr>,
     \<lparr>opt_key = js ''readme'', opt_name = js ''README Documentation'',
      opt_description = js ''Generate comprehensive README.md'',
      opt_default = Some True, opt_dependencies = None\<rparr>,
     \<lparr>opt_key = js ''apiDocs'', opt_name = js ''API Documentation'',
      opt_description = js ''Add OpenAPI/Swagger documentation setup'',
      opt_default = Some True, opt_dependencies = None\<rparr>,
     \<lparr>opt_key = js ''logging'', opt_name = js ''Structured Logging'',
      opt_description = js ''Add structured logging configuration'',
      opt_default = Some True, opt_dependencies = Some [js ''structlog'']\<rparr>,
     \<lparr>opt_key = js ''monitoring'', opt_name = js ''Monitoring & Health Checks'',
      opt_description = js ''Add health check endpoints and monitoring'',
      opt_default = Some False, opt_dependencies = None\<rparr>]"

text \<open>\<open>Object.values\<close> lists the catalogue in the order it is written.\<close>

definition getPythonOptions :: "pythonOption list" where
  "getPythonOptions = PYTHON_OPTIONS"

section \<open>The dependency manifest (FastAPIGenerator.generateRequirementsTxt)\<close>

definition baseRequirements :: "jsstring list" where
  "baseRequirements =
     [js ''fastapi>=0.104.1'', js ''uvicorn[standard]>=0.24.0'', js ''pydantic-settings>=2.1.0'']"

text \<open>
  The loop over the catalogue: an option whose key is truthy in \<open>opts\<close> and that declares
  dependencies pushes each of them, suffixed with \<open>>=0.0.0\<close>.
\<close>

fun pushOptionDependencies ::
  "projectOptions \<Rightarrow> jsstring list \<Rightarrow> pythonOption list \<Rightarrow> jsstring list" where
  "pushOptionDependencies opts requirements [] = requirements"
| "pushOptionDependencies opts requirements (option # rest) =
     pushOptionDependencies opts
       (case opt_dependencies option of
          Some dependencies \<Rightarrow>
            if truthy (opts (opt_key option))
            then requirements @ map (\<lambda>dep. dep @ js ''>=0.0.0'') dependencies
            else requirements
        | None \<Rightarrow> requirements)
       rest"

text \<open>\<open>requirements.some((r) => r.includes(p))\<close>.\<close>

definition someIncludes :: "jsstring list \<Rightarrow> jsstring \<Rightarrow> bool" where
  "someIncludes requirements p = list_ex (\<lambda>r. includes_js r p) requirements"

text \<open>The array \<open>requirements\<close> as it stands before it is deduplicated and sorted.\<close>

definition requirementsArray :: "projectOptions \<Rightarrow> jsstring list" where
  "requirementsArray opts =
     (let requirements = pushOptionDependencies opts baseRequirements getPythonOptions;
          requirements =
            (if notFalse (opts (js ''envFiles'')) \<and> \<not> someIncludes requirements (js ''python-dotenv'')
             then requirements @ [js ''python-dotenv>=1.0.0''] else requirements);
          requirements =
            (if truthy (opts (js ''orm'')) \<and> \<not> someIncludes requirements (js ''sqlalchemy'')
             then requirements @ [js ''sqlalchemy>=2.0.23''] else requirements);
          requirements =
            (if truthy (opts (js ''migrations'')) \<and> \<not> someIncludes requirements (js ''alembic'')
             then requirements @ [js ''alembic>=1.12.1''] else requirements);
          requirements =
            (if notFalse (opts (js ''tests'')) \<and> \<not> someIncludes requirements (js ''pytest'')
             then requirements @ [js ''pytest>=7.4.3'', js ''pytest-asyncio>=0.21.1'', js ''httpx>=0.25.2'']
             else requirements)
      in requirements)"

text \<open>
  \<open>Array.from(new Set(requirements))\<close> keeps the first occurrence of every string, in
  order; \<open>sort()\<close> without a comparator orders strings by their code units, which is the
  lexicographic order of the lists.
\<close>

definition arrayFromSet :: "jsstring list \<Rightarrow> jsstring list" where
  "arrayFromSet xs = foldl (\<lambda>seen x. if x \<in> set seen then seen else seen @ [x]) [] xs"

definition uniqueRequirements :: "projectOptions \<Rightarrow> jsstring list" where
  "uniqueRequirements opts = sort (arrayFromSet (requirementsArray opts))"

fun join :: "jsstring list \<Rightarrow> jsstring \<Rightarrow> jsstring" where
  "join [] sep = []"
| "join [x] sep = x"
| "join (x # y # ys) sep = x @ sep @ join (y # ys) sep"

text \<open>The text written to \<open>requirements.txt\<close>: one requirement per line.\<close>

definition requirementsTxt :: "projectOptions \<Rightarrow> jsstring" where
  "requirementsTxt opts = join (uniqueRequirements opts) [0x0A] @ [0x0A]"

subsection \<open>Reading the manifest back, for the statements below\<close>

text \<open>
  The lines of a text, as pip reads a requirements file: the text is cut at every line
  feed, and what follows the last line feed is no line when it is empty. \<open>splitOn\<close> is
  \<open>String.prototype.split\<close> with a separator of one code unit.
\<close>

fun splitOn :: "jsstring \<Rightarrow> nat \<Rightarrow> jsstring list" where
  "splitOn [] sep = [[]]"
| "splitOn (c # cs) sep =
     (if c = sep then [] # splitOn cs sep
      else case splitOn cs sep of [] \<Rightarrow> [[c]] | piece # pieces \<Rightarrow> (c # piece) # pieces)"

definition textLines :: "jsstring \<Rightarrow> jsstring list" where
  "textLines text = (let pieces = splitOn text 0x0A in
     if last pieces = [] then butlast pieces else pieces)"

text \<open>
  The package name of a requirement line is what stands before its version constraint.
  The packages of the manifest are the package names of the lines of the written text.
  The declared dependency list of an option key is the one of its catalogue entry.
\<close>

definition packageName :: "jsstring \<Rightarrow> jsstring" where
  "packageName line = takeWhile (\<lambda>c. c \<noteq> 0x3E \<and> c \<noteq> 0x3D \<and> c \<noteq> 0x3C) line"

definition manifestPackages :: "projectOptions \<Rightarrow> jsstring set" where
  "manifestPackages opts = set (map packageName (textLines (requirementsTxt opts)))"

definition declaredDependencies :: "jsstring \<Rightarrow> jsstring list" where
  "declaredDependencies k =
     concat (map (\<lambda>option. case opt_dependencies option of Some ds \<Rightarrow> ds | None \<Rightarrow> [])
                 (filter (\<lambda>option. opt_key option = k) PYTHON_OPTIONS))"

definition enabledKeys :: "projectOptions \<Rightarrow> jsstring set" where
  "enabledKeys opts = {k. truthy (opts k)}"

section \<open>Placeholder substitution on a string\<close>

text \<open>
  \<open>content.replace(new RegExp(`{{${key}}}`, 'g'), value)\<close>. For a key made of letters and
  digits, as the keys of the generators are, the regular expression matches the literal
  text \<open>{{key}}\<close>. The matches are found from left to right and do not overlap.
  The replacement is a string, so \<open>GetSubstitution\<close> expands its dollar patterns:
  \<open>$$\<close> is a dollar, \<open>$&\<close> the matched text, \<open>$`\<close> the text before the match and
  \<open>$'\<close> the text after it; the expression has no groups, so every other dollar stands
  for itself.
\<close>

definition placeholder :: "jsstring \<Rightarrow> jsstring" where
  "placeholder key = js ''{{'' @ key @ js ''}}''"

fun getSubstitution :: "jsstring \<Rightarrow> jsstring \<Rightarrow> jsstring \<Rightarrow> jsstring \<Rightarrow> jsstring" where
  "getSubstitution matched preceding following [] = []"
| "getSubstitution matched preceding following [c] = [c]"
| "getSubstitution matched preceding following (c # d # rest) =
     (if c = 0x24 \<and> d = 0x24 then 0x24 # getSubstitution matched preceding following rest
      else if c = 0x24 \<and> d = 0x26 then matched @ getSubstitution matched preceding following rest
      else if c = 0x24 \<and> d = 0x60 then preceding @ getSubstitution matched preceding following rest
      else if c = 0x24 \<and> d = 0x27 then following @ getSubstitution matched preceding following rest
      else c # getSubstitution matched preceding following (d # rest))"

lemma startsWith_length: "startsWith s p \<Longrightarrow> length p \<le> length s"
  by (induction s p rule: startsWith.induct) auto

function replaceToken :: "jsstring \<Rightarrow> jsstring \<Rightarrow> jsstring \<Rightarrow> jsstring \<Rightarrow> jsstring" where
  "replaceToken key value preceding s =
     (if startsWith s (placeholder key)
      then getSubstitution (placeholder key) preceding (drop (length (placeholder key)) s) value
           @ replaceToken key value (preceding @ placeholder key) (drop (length (placeholder key)) s)
      else case s of
             [] \<Rightarrow> []
           | c # cs \<Rightarrow> c # replaceToken key value (preceding @ [c]) cs)"
  by pat_completeness auto
termination
proof (relation "measure (\<lambda>(key, value, preceding, s). length s)")
  show "wf (measure (\<lambda>(key, value, preceding, s). length s))"
    by simp
next
  fix key val preceding s :: jsstring
  assume "startsWith s (placeholder key)"
  then have "length (placeholder key) \<le> length s"
    by (rule startsWith_length)
  moreover have "length (placeholder key) = length key + 4"
    by (simp add: placeholder_def js_def)
  ultimately show "((key, val, preceding @ placeholder key, drop (length (placeholder key)) s),
           (key, val, preceding, s)) \<in> measure (\<lambda>(key, value, preceding, s). length s)"
    by simp
next
  fix key val preceding s :: jsstring and c cs
  assume "s = c # cs"
  then show "((key, val, preceding @ [c], cs), (key, val, preceding, s))
           \<in> measure (\<lambda>(key, value, preceding, s). length s)"
    by simp
qed

declare replaceToken.simps [simp del]

text \<open>
  The loop over \<open>Object.entries(replacements)\<close>: one global replacement per key, each on
  the result of the one before.
\<close>

type_synonym replacements = "(jsstring \<times> jsstring) list"

fun applyReplacements :: "replacements \<Rightarrow> jsstring \<Rightarrow> jsstring" where
  "applyReplacements [] content = content"
| "applyReplacements ((key, value) # rest) content =
     applyReplacements rest (replaceToken key value [] content)"

subsection \<open>The derived forms of the project name\<close>

definition isUpperAZ :: "nat \<Rightarrow> bool" where
  "isUpperAZ c = (0x41 \<le> c \<and> c \<le> 0x5A)"

definition isLowerAlnum :: "nat \<Rightarrow> bool" where
  "isLowerAlnum c = ((0x61 \<le> c \<and> c \<le> 0x7A) \<or> (0x30 \<le> c \<and> c \<le> 0x39))"

text \<open>
  \<open>str.replace(/([A-Z])/g, sep + '$1')\<close> puts the separator before every ASCII capital,
  \<open>replace(/^sep/, '')\<close> drops one separator at the start, and the last replacement
  turns every code unit that is not a lower-case ASCII letter, a digit or the separator
  into the separator.
\<close>

definition separateCapitals :: "nat \<Rightarrow> jsstring \<Rightarrow> jsstring" where
  "separateCapitals sep str = concat (map (\<lambda>c. if isUpperAZ c then [sep, c] else [c]) str)"

definition dropLeading :: "nat \<Rightarrow> jsstring \<Rightarrow> jsstring" where
  "dropLeading sep str = (case str of [] \<Rightarrow> [] | c # cs \<Rightarrow> if c = sep then cs else c # cs)"

definition toSnakeCase :: "jsstring \<Rightarrow> jsstring" where
  "toSnakeCase str =
     map (\<lambda>c. if isLowerAlnum c \<or> c = 0x5F then c else 0x5F)
       (dropLeading 0x5F (toLowerCase (separateCapitals 0x5F str)))"

definition toKebabCase :: "jsstring \<Rightarrow> jsstring" where
  "toKebabCase str =
     map (\<lambda>c. if isLowerAlnum c \<or> c = 0x2D then c else 0x2D)
       (dropLeading 0x2D (toLowerCase (separateCapitals 0x2D str)))"

section \<open>The file system\<close>

text \<open>
  A path is the list of its components, from the root. A node is a regular file (its text
  and whether the process may read and write it), a directory (its entries, by name), or
  a socket, which stands for every node that is neither. Symbolic links are not modelled,
  so every node of the tree exists for \<open>fs.pathExists\<close>. Operations fail with the system
  error of the first check they miss: a missing parent (\<open>ENOENT\<close>), a component that is
  not a directory (\<open>ENOTDIR\<close>), a directory where a file is expected (\<open>EISDIR\<close>), a
  missing permission (\<open>EACCES\<close>), a file where a directory is to be made (\<open>EEXIST\<close>), a
  socket that is opened as a file (\<open>ENXIO\<close>).
\<close>

type_synonym path = "jsstring list"

datatype node = File jsstring bool bool | Dir "(jsstring \<times> node) list" | Other

fun setEntry :: "jsstring \<Rightarrow> node \<Rightarrow> (jsstring \<times> node) list \<Rightarrow> (jsstring \<times> node) list" where
  "setEntry name n [] = [(name, n)]"
| "setEntry name n ((name', n') # es) =
     (if name = name' then (name, n) # es else (name', n') # setEntry name n es)"

fun lookup :: "node \<Rightarrow> path \<Rightarrow> node option" where
  "lookup n [] = Some n"
| "lookup n (c # p) =
     (case n of
        Dir es \<Rightarrow> (case map_of es c of None \<Rightarrow> None | Some child \<Rightarrow> lookup child p)
      | _ \<Rightarrow> None)"

definition pathExists :: "node \<Rightarrow> path \<Rightarrow> bool" where
  "pathExists fs p = (lookup fs p \<noteq> None)"

text \<open>
  \<open>atPath p f\<close> replaces the node at \<open>p\<close> by what \<open>f\<close> makes of it (\<open>None\<close>: nothing is
  there yet); every directory above \<open>p\<close> has to exist.
\<close>

fun atPath :: "path \<Rightarrow> (node option \<Rightarrow> error + node) \<Rightarrow> node \<Rightarrow> error + node" where
  "atPath [] f n = f (Some n)"
| "atPath [c] f n =
     (case n of
        Dir es \<Rightarrow>
          (case f (map_of es c) of Inl e \<Rightarrow> Inl e | Inr n' \<Rightarrow> Inr (Dir (setEntry c n' es)))
      | _ \<Rightarrow> Inl ENOTDIR)"
| "atPath (c # d # p) f n =
     (case n of
        Dir es \<Rightarrow>
          (case map_of es c of
             None \<Rightarrow> Inl ENOENT
           | Some child \<Rightarrow>
               (case atPath (d # p) f child of
                  Inl e \<Rightarrow> Inl e
                | Inr n' \<Rightarrow> Inr (Dir (setEntry c n' es))))
      | _ \<Rightarrow> Inl ENOTDIR)"

fun readNode :: "node option \<Rightarrow> error + jsstring" where
  "readNode None = Inl ENOENT"
| "readNode (Some (File content r w)) = (if r then Inr content else Inl EACCES)"
| "readNode (Some (Dir es)) = Inl EISDIR"
| "readNode (Some Other) = Inl ENXIO"

fun writeNode :: "jsstring \<Rightarrow> node option \<Rightarrow> error + node" where
  "writeNode content None = Inr (File content True True)"
| "writeNode content (Some (File old r w)) = (if w then Inr (File content r w) else Inl EACCES)"
| "writeNode content (Some (Dir es)) = Inl EISDIR"
| "writeNode content (Some Other) = Inl ENXIO"

fun appendNode :: "jsstring \<Rightarrow> node option \<Rightarrow> error + node" where
  "appendNode content None = Inr (File content True True)"
| "appendNode content (Some (File old r w)) =
     (if w then Inr (File (old @ content) r w) else Inl EACCES)"
| "appendNode content (Some (Dir es)) = Inl EISDIR"
| "appendNode content (Some Other) = Inl ENXIO"

definition readFile :: "node \<Rightarrow> path \<Rightarrow> error + jsstring" where
  "readFile fs p = readNode (lookup fs p)"

definition writeFile :: "path \<Rightarrow> jsstring \<Rightarrow> node \<Rightarrow> error + node" where
  "writeFile p content fs = atPath p (writeNode content) fs"

definition appendFile :: "path \<Rightarrow> jsstring \<Rightarrow> node \<Rightarrow> error + node" where
  "appendFile p content fs = atPath p (appendNode content) fs"

text \<open>
  \<open>fs.ensureDir\<close>: the directory and every missing directory above it are created. It
  fails with \<open>EEXIST\<close> when the path itself is there and is not a directory, and with
  \<open>ENOTDIR\<close> when a component above it is not one. Every check comes before the first
  directory is made, so a failure changes nothing.
\<close>

fun ensureDir :: "path \<Rightarrow> node \<Rightarrow> error + node" where
  "ensureDir [] n = (case n of Dir es \<Rightarrow> Inr n | _ \<Rightarrow> Inl EEXIST)"
| "ensureDir (c # p) n =
     (case n of
        Dir es \<Rightarrow>
          (case ensureDir p (case map_of es c of None \<Rightarrow> Dir [] | Some child \<Rightarrow> child) of
             Inl e \<Rightarrow> Inl e
           | Inr n' \<Rightarrow> Inr (Dir (setEntry c n' es)))
      | _ \<Rightarrow> Inl ENOTDIR)"

text \<open>
  \<open>fs.copy(src, dest, {filter})\<close> of fs-extra, for a tree without links. The outcome of
  an operation that may fail half-way is the error, if any, and the file system it leaves.

  \<open>checkPaths\<close> comes first: the source has to exist; a destination that exists has to
  be another node than the source and of the same kind (directory or not); a directory
  is not copied into itself. Then the filter is asked for the source, the parent of the
  destination is made unless \<open>fs.pathExists\<close> finds it, and the copy starts. In a
  directory the entries are taken one after the other, in the order the directory lists
  them (the model fixes this order, which matters only for what a failed copy leaves):
  the filter is asked with the path of the entry, an entry it refuses is skipped with all
  it holds, and the kinds are checked again. A file replaces a file of the same name: the old one is unlinked, then
  the new one is written with the text and the permissions of the source, which fails
  when the source may not be read. A socket is not copied. The first error ends the copy,
  and what has been copied or unlinked until then stays so.
\<close>

type_synonym outcome = "error option \<times> node"

definition pathJoin :: "jsstring \<Rightarrow> jsstring \<Rightarrow> jsstring" where
  "pathJoin dir name = dir @ js ''/'' @ name"

definition pathString :: "path \<Rightarrow> jsstring" where
  "pathString p = concat (map (\<lambda>c. js ''/'' @ c) p)"

fun isDirectory :: "node \<Rightarrow> bool" where
  "isDirectory (Dir es) = True"
| "isDirectory n = False"

fun putEntry ::
  "jsstring \<Rightarrow> node option \<Rightarrow> (jsstring \<times> node) list \<Rightarrow> (jsstring \<times> node) list" where
  "putEntry name None es = filter (\<lambda>entry. fst entry \<noteq> name) es"
| "putEntry name (Some n) es = setEntry name n es"

text \<open>The check of the kinds, with the messages of fs-extra.\<close>

definition kindError :: "jsstring \<Rightarrow> jsstring \<Rightarrow> node \<Rightarrow> node option \<Rightarrow> error option" where
  "kindError src dest n cur =
     (case cur of
        None \<Rightarrow> None
      | Some d \<Rightarrow>
          if isDirectory n \<and> \<not> isDirectory d
          then Some (Error (js ''Cannot overwrite non-directory '' @ [0x27] @ dest @ [0x27]
                            @ js '' with directory '' @ [0x27] @ src @ [0x27] @ js ''.''))
          else if \<not> isDirectory n \<and> isDirectory d
          then Some (Error (js ''Cannot overwrite directory '' @ [0x27] @ dest @ [0x27]
                            @ js '' with non-directory '' @ [0x27] @ src @ [0x27] @ js ''.''))
          else None)"

text \<open>
  \<open>copyNode\<close> copies the node \<open>n\<close> with path \<open>src\<close> to the path \<open>dest\<close>, where \<open>cur\<close>
  is what stands there; it returns the error, if any, and what stands there afterwards.
\<close>

fun copyNode ::
    "(jsstring \<Rightarrow> bool) \<Rightarrow> jsstring \<Rightarrow> jsstring \<Rightarrow> node \<Rightarrow> node option
       \<Rightarrow> error option \<times> node option"
  and copyEntries ::
    "(jsstring \<Rightarrow> bool) \<Rightarrow> jsstring \<Rightarrow> jsstring \<Rightarrow> (jsstring \<times> node) list
       \<Rightarrow> (jsstring \<times> node) list \<Rightarrow> error option \<times> (jsstring \<times> node) list" where
  "copyNode filt src dest (File content r w) cur =
     (case kindError src dest (File content r w) cur of
        Some e \<Rightarrow> (Some e, cur)
      | None \<Rightarrow> if r then (None, Some (File content r w)) else (Some EACCES, None))"
| "copyNode filt src dest (Dir es) cur =
     (case kindError src dest (Dir es) cur of
        Some e \<Rightarrow> (Some e, cur)
      | None \<Rightarrow>
          (case copyEntries filt src dest es (case cur of Some (Dir ds) \<Rightarrow> ds | _ \<Rightarrow> []) of
             (e, ds') \<Rightarrow> (e, Some (Dir ds'))))"
| "copyNode filt src dest Other cur =
     (case kindError src dest Other cur of
        Some e \<Rightarrow> (Some e, cur)
      | None \<Rightarrow> (Some (Error (js ''Cannot copy a socket file: '' @ src)), cur))"
| "copyEntries filt src dest [] ds = (None, ds)"
| "copyEntries filt src dest ((name, n) # es) ds =
     (if filt (pathJoin src name)
      then case copyNode filt (pathJoin src name) (pathJoin dest name) n (map_of ds name) of
             (Some e, cur') \<Rightarrow> (Some e, putEntry name cur' ds)
           | (None, cur') \<Rightarrow> copyEntries filt src dest es (putEntry name cur' ds)
      else copyEntries filt src dest es ds)"

text \<open>
  \<open>atPathPut p f\<close> lets \<open>f\<close> decide what stands at \<open>p\<close> afterwards (\<open>None\<close>: nothing),
  and hands on the error of \<open>f\<close>; every directory above \<open>p\<close> has to exist.
\<close>

fun atPathPut ::
  "path \<Rightarrow> (node option \<Rightarrow> error option \<times> node option) \<Rightarrow> node \<Rightarrow> outcome" where
  "atPathPut [] f n = (case f (Some n) of (e, Some n') \<Rightarrow> (e, n') | (e, None) \<Rightarrow> (e, n))"
| "atPathPut [c] f n =
     (case n of
        Dir es \<Rightarrow> (case f (map_of es c) of (e, cur') \<Rightarrow> (e, Dir (putEntry c cur' es)))
      | _ \<Rightarrow> (Some ENOTDIR, n))"
| "atPathPut (c # d # p) f n =
     (case n of
        Dir es \<Rightarrow>
          (case map_of es c of
             None \<Rightarrow> (Some ENOENT, n)
           | Some child \<Rightarrow>
               (case atPathPut (d # p) f child of (e, child') \<Rightarrow> (e, Dir (setEntry c child' es))))
      | _ \<Rightarrow> (Some ENOTDIR, n))"

definition checkPaths :: "path \<Rightarrow> path \<Rightarrow> node \<Rightarrow> node option \<Rightarrow> error option" where
  "checkPaths src dest srcNode cur =
     (if cur \<noteq> None \<and> src = dest
      then Some (Error (js ''Source and destination must not be the same.''))
      else case kindError (pathString src) (pathString dest) srcNode cur of
             Some e \<Rightarrow> Some e
           | None \<Rightarrow>
               if isDirectory srcNode \<and> take (length src) dest = src
               then Some (Error (js ''Cannot copy '' @ [0x27] @ pathString src @ [0x27]
                                 @ js '' to a subdirectory of itself, '' @ [0x27]
                                 @ pathString dest @ [0x27] @ js ''.''))
               else None)"

definition copy :: "(jsstring \<Rightarrow> bool) \<Rightarrow> path \<Rightarrow> path \<Rightarrow> node \<Rightarrow> outcome" where
  "copy filt src dest fs =
     (case lookup fs src of
        None \<Rightarrow> (Some ENOENT, fs)
      | Some srcNode \<Rightarrow>
          (case checkPaths src dest srcNode (lookup fs dest) of
             Some e \<Rightarrow> (Some e, fs)
           | None \<Rightarrow>
               if \<not> filt (pathString src) then (None, fs)
               else case (if pathExists fs (butlast dest) then Inr fs
                          else ensureDir (butlast dest) fs) of
                      Inl e \<Rightarrow> (Some e, fs)
                    | Inr fs' \<Rightarrow>
                        atPathPut dest
                          (copyNode filt (pathString src) (pathString dest) srcNode) fs'))"

definition copyTemplate :: "path \<Rightarrow> path \<Rightarrow> node \<Rightarrow> outcome" where
  "copyTemplate sourcePath targetPath fs = copy copyFilter sourcePath targetPath fs"

section \<open>Placeholder substitution over a directory (BaseGenerator.replacePlaceholders)\<close>

text \<open>
  The loop over the entries of a directory: a directory is entered, a regular file is
  read, rewritten and written back. Both the read and the write stand inside the
  \<open>try\<close> block whose \<open>catch\<close> continues with the next entry, so an error of either
  leaves the file as it is and goes on. Other entries are passed over.
\<close>

fun replaceInNode :: "replacements \<Rightarrow> node \<Rightarrow> node"
  and replaceInEntries :: "replacements \<Rightarrow> (jsstring \<times> node) list \<Rightarrow> (jsstring \<times> node) list" where
  "replaceInNode r (Dir es) = Dir (replaceInEntries r es)"
| "replaceInNode r (File content rd wr) =
     (case readNode (Some (File content rd wr)) of
        Inl e \<Rightarrow> File content rd wr
      | Inr text \<Rightarrow>
          (case writeNode (applyReplacements r text) (Some (File content rd wr)) of
             Inl e \<Rightarrow> File content rd wr
           | Inr n' \<Rightarrow> n'))"
| "replaceInNode r Other = Other"
| "replaceInEntries r [] = []"
| "replaceInEntries r ((name, n) # es) = (name, replaceInNode r n) # replaceInEntries r es"

text \<open>\<open>fs.readdir(dirPath)\<close> fails unless \<open>dirPath\<close> is a directory; that error is not caught.\<close>

definition replacePlaceholders :: "path \<Rightarrow> replacements \<Rightarrow> node \<Rightarrow> error + node" where
  "replacePlaceholders dirPath r fs =
     (case lookup fs dirPath of
        None \<Rightarrow> Inl ENOENT
      | Some (Dir es) \<Rightarrow> atPath dirPath (\<lambda>cur. Inr (Dir (replaceInEntries r es))) fs
      | Some _ \<Rightarrow> Inl ENOTDIR)"

text \<open>
  \<open>replaceInFiles\<close> of the utilities does the same walk without the \<open>try\<close> block: the
  first read or write that fails ends it with that error.
\<close>

fun replaceInFilesNode :: "replacements \<Rightarrow> node \<Rightarrow> error + node"
  and replaceInFilesEntries ::
    "replacements \<Rightarrow> (jsstring \<times> node) list \<Rightarrow> error + (jsstring \<times> node) list" where
  "replaceInFilesNode r (Dir es) =
     (case replaceInFilesEntries r es of Inl e \<Rightarrow> Inl e | Inr es' \<Rightarrow> Inr (Dir es'))"
| "replaceInFilesNode r (File content rd wr) =
     (case readNode (Some (File content rd wr)) of
        Inl e \<Rightarrow> Inl e
      | Inr text \<Rightarrow> writeNode (applyReplacements r text) (Some (File content rd wr)))"
| "replaceInFilesNode r Other = Inr Other"
| "replaceInFilesEntries r [] = Inr []"
| "replaceInFilesEntries r ((name, n) # es) =
     (case replaceInFilesNode r n of
        Inl e \<Rightarrow> Inl e
      | Inr n' \<Rightarrow>
          (case replaceInFilesEntries r es of
             Inl e \<Rightarrow> Inl e
           | Inr es' \<Rightarrow> Inr ((name, n') # es')))"

definition replaceInFiles :: "path \<Rightarrow> replacements \<Rightarrow> node \<Rightarrow> error + node" where
  "replaceInFiles dirPath r fs =
     (case lookup fs dirPath of
        None \<Rightarrow> Inl ENOENT
      | Some (Dir es) \<Rightarrow>
          (case replaceInFilesEntries r es of
             Inl e \<Rightarrow> Inl e
           | Inr es' \<Rightarrow> atPath dirPath (\<lambda>cur. Inr (Dir es')) fs)
      | Some _ \<Rightarrow> Inl ENOTDIR)"

section \<open>The FastAPI generator\<close>

text \<open>
  The bodies of the generated files other than \<open>requirements.txt\<close> are fixed texts of the
  generator, some of them built from the project name and the options. No property below
  depends on what they say, so they are the fields of a record that the generator takes.
\<close>

record texts =
  modelsContent :: jsstring
  sessionContent :: jsstring
  alembicIni :: jsstring
  envPy :: jsstring
  scriptMako :: jsstring
  dockerfile :: jsstring
  dockerignore :: jsstring
  dockerCompose :: "jsstring \<Rightarrow> projectOptions \<Rightarrow> jsstring"
  pytestIni :: jsstring
  conftest :: jsstring
  testMain :: jsstring
  envExample :: jsstring
  prodConfig :: jsstring
  devConfig :: jsstring
  ruffToml :: jsstring
  blackConfig :: jsstring
  preCommitContent :: jsstring
  loggingConfig :: jsstring
  readme :: "jsstring \<Rightarrow> projectOptions \<Rightarrow> jsstring"
  mainPy :: "jsstring \<Rightarrow> projectOptions \<Rightarrow> jsstring"
  configPy :: "jsstring \<Rightarrow> projectOptions \<Rightarrow> jsstring"

record generatorOptions =
  go_projectName :: jsstring
  go_targetPath :: jsstring
  go_options :: "projectOptions option"

text \<open>
  The methods of the generator await one file operation after the other, and which
  operations they call depends on the options only. Each method is modelled by the list
  of the operations it awaits, in order; \<open>run\<close> performs such a list on a file system
  and stops at the first operation that fails, as the rejected promise ends the method.
  \<open>FormatterConfig\<close> is the one step that looks at the file system before it writes.
\<close>

datatype action =
    EnsureDir path
  | WriteFile path jsstring
  | FormatterConfig path jsstring
  | CopyTemplate path path
  | ReplacePlaceholders path replacements

text \<open>
  \<open>generateFormatterConfig\<close>: the text of \<open>pyproject.toml\<close> is read if the file exists,
  and the configuration of black is appended unless the text already has its section.
\<close>

definition generateFormatterConfig :: "path \<Rightarrow> jsstring \<Rightarrow> node \<Rightarrow> error + node" where
  "generateFormatterConfig targetPath blackSection fs =
     (let pyprojectToml = targetPath @ [js ''pyproject.toml'']
      in case (if pathExists fs pyprojectToml then readFile fs pyprojectToml else Inr []) of
           Inl e \<Rightarrow> Inl e
         | Inr pyprojectContent \<Rightarrow>
             if \<not> includes_js pyprojectContent (js ''[tool.black]'')
             then appendFile pyprojectToml blackSection fs
             else Inr fs)"

text \<open>
  An operation that fails as a whole leaves the file system as it found it; the copy of
  the template may fail half-way.
\<close>

fun attempt :: "node \<Rightarrow> error + node \<Rightarrow> outcome" where
  "attempt fs (Inl e) = (Some e, fs)"
| "attempt fs (Inr fs') = (None, fs')"

fun perform :: "action \<Rightarrow> node \<Rightarrow> outcome" where
  "perform (EnsureDir p) fs = attempt fs (ensureDir p fs)"
| "perform (WriteFile p content) fs = attempt fs (writeFile p content fs)"
| "perform (FormatterConfig targetPath blackSection) fs =
     attempt fs (generateFormatterConfig targetPath blackSection fs)"
| "perform (CopyTemplate sourcePath targetPath) fs = copyTemplate sourcePath targetPath fs"
| "perform (ReplacePlaceholders dirPath r) fs = attempt fs (replacePlaceholders dirPath r fs)"

fun run :: "action list \<Rightarrow> node \<Rightarrow> outcome" where
  "run [] fs = (None, fs)"
| "run (a # rest) fs =
     (case perform a fs of (Some e, fs') \<Rightarrow> (Some e, fs') | (None, fs') \<Rightarrow> run rest fs')"

definition generateRequirementsTxt :: "path \<Rightarrow> projectOptions \<Rightarrow> action list" where
  "generateRequirementsTxt targetPath opts =
     [WriteFile (targetPath @ [js ''requirements.txt'']) (requirementsTxt opts)]"

definition generateORMFiles :: "texts \<Rightarrow> path \<Rightarrow> action list" where
  "generateORMFiles T targetPath =
     (let dbDir = targetPath @ [js ''app'', js ''db'']
      in [EnsureDir dbDir,
          WriteFile (dbDir @ [js ''models.py'']) (modelsContent T),
          WriteFile (dbDir @ [js ''session.py'']) (sessionContent T),
          WriteFile (dbDir @ [js ''__init__.py''])
            (js ''from app.db.models import Base, BaseModel'' @ [0x0A]
             @ js ''from app.db.session import get_db, SessionLocal'' @ [0x0A])])"

definition generateMigrationFiles :: "texts \<Rightarrow> path \<Rightarrow> action list" where
  "generateMigrationFiles T targetPath =
     (let migrationsDir = targetPath @ [js ''alembic'']
      in [EnsureDir migrationsDir,
          EnsureDir (migrationsDir @ [js ''versions'']),
          WriteFile (targetPath @ [js ''alembic.ini'']) (alembicIni T),
          WriteFile (migrationsDir @ [js ''env.py'']) (envPy T),
          WriteFile (migrationsDir @ [js ''script.py.mako'']) (scriptMako T)])"

definition generateDockerFiles :: "texts \<Rightarrow> path \<Rightarrow> action list" where
  "generateDockerFiles T targetPath =
     [WriteFile (targetPath @ [js ''Dockerfile'']) (dockerfile T),
      WriteFile (targetPath @ [js ''.dockerignore'']) (dockerignore T)]"

definition generateDockerCompose ::
  "texts \<Rightarrow> path \<Rightarrow> jsstring \<Rightarrow> projectOptions \<Rightarrow> action list" where
  "generateDockerCompose T targetPath projectName opts =
     [WriteFile (targetPath @ [js ''docker-compose.yml'']) (dockerCompose T projectName opts)]"

definition generateTestFiles :: "texts \<Rightarrow> path \<Rightarrow> action list" where
  "generateTestFiles T targetPath =
     (let testsDir = targetPath @ [js ''tests'']
      in [EnsureDir testsDir,
          WriteFile (targetPath @ [js ''pytest.ini'']) (pytestIni T),
          WriteFile (testsDir @ [js ''conftest.py'']) (conftest T),
          WriteFile (testsDir @ [js ''test_main.py'']) (testMain T),
          WriteFile (testsDir @ [js ''__init__.py'']) []])"

definition generateEnvFiles :: "texts \<Rightarrow> path \<Rightarrow> action list" where
  "generateEnvFiles T targetPath =
     [WriteFile (targetPath @ [js ''.env.example'']) (envExample T)]"

definition generateProdConfig :: "texts \<Rightarrow> path \<Rightarrow> action list" where
  "generateProdConfig T targetPath =
     (let configDir = targetPath @ [js ''app'', js ''config'']
      in [EnsureDir configDir, WriteFile (configDir @ [js ''production.py'']) (prodConfig T)])"

definition generateDevConfig :: "texts \<Rightarrow> path \<Rightarrow> action list" where
  "generateDevConfig T targetPath =
     (let configDir = targetPath @ [js ''app'', js ''config'']
      in [EnsureDir configDir, WriteFile (configDir @ [js ''development.py'']) (devConfig T)])"

definition generateLinterConfig :: "texts \<Rightarrow> path \<Rightarrow> action list" where
  "generateLinterConfig T targetPath =
     [WriteFile (targetPath @ [js ''ruff.toml'']) (ruffToml T)]"

definition generatePreCommitConfig :: "texts \<Rightarrow> path \<Rightarrow> action list" where
  "generatePreCommitConfig T targetPath =
     (let preCommitConfig = js ''.pre-commit-config.yaml''
      in [WriteFile (targetPath @ [preCommitConfig]) (preCommitContent T)])"

definition generateLoggingConfig :: "texts \<Rightarrow> path \<Rightarrow> action list" where
  "generateLoggingConfig T targetPath =
     (let loggingDir = targetPath @ [js ''app'', js ''core'']
      in [EnsureDir loggingDir, WriteFile (loggingDir @ [js ''logging.py'']) (loggingConfig T)])"

definition generateMonitoring :: "path \<Rightarrow> action list" where
  "generateMonitoring targetPath = []"

definition generateREADME ::
  "texts \<Rightarrow> path \<Rightarrow> jsstring \<Rightarrow> projectOptions \<Rightarrow> action list" where
  "generateREADME T targetPath projectName opts =
     [WriteFile (targetPath @ [js ''README.md'']) (readme T projectName opts)]"

definition generateMainPy ::
  "texts \<Rightarrow> path \<Rightarrow> jsstring \<Rightarrow> projectOptions \<Rightarrow> action list" where
  "generateMainPy T targetPath projectName opts =
     [WriteFile (targetPath @ [js ''app'', js ''main.py'']) (mainPy T projectName opts)]"

definition generateConfigPy ::
  "texts \<Rightarrow> path \<Rightarrow> jsstring \<Rightarrow> projectOptions \<Rightarrow> action list" where
  "generateConfigPy T targetPath projectName opts =
     [WriteFile (targetPath @ [js ''app'', js ''core'', js ''config.py''])
        (configPy T projectName opts)]"

definition projectReplacements :: "jsstring \<Rightarrow> replacements" where
  "projectReplacements projectName =
     [(js ''projectName'', projectName),
      (js ''projectNameSnake'', toSnakeCase projectName),
      (js ''projectNameKebab'', toKebabCase projectName)]"

definition generateOptionalFiles :: "texts \<Rightarrow> path \<Rightarrow> generatorOptions \<Rightarrow> action list" where
  "generateOptionalFiles T targetPath options =
     (let opts = (case go_options options of Some given \<Rightarrow> given | None \<Rightarrow> Map.empty)
      in generateRequirementsTxt targetPath opts
         @ (if truthy (opts (js ''orm'')) then generateORMFiles T targetPath else [])
         @ (if truthy (opts (js ''migrations'')) then generateMigrationFiles T targetPath else [])
         @ (if truthy (opts (js ''docker'')) then generateDockerFiles T targetPath else [])
         @ (if truthy (opts (js ''dockerCompose''))
            then generateDockerCompose T targetPath (go_projectName options) opts else [])
         @ (if truthy (opts (js ''tests'')) then generateTestFiles T targetPath else [])
         @ (if truthy (opts (js ''envFiles'')) then generateEnvFiles T targetPath else [])
         @ (if truthy (opts (js ''prodConfig'')) then generateProdConfig T targetPath else [])
         @ (if truthy (opts (js ''devConfig'')) then generateDevConfig T targetPath else [])
         @ (if truthy (opts (js ''linter'')) then generateLinterConfig T targetPath else [])
         @ (if truthy (opts (js ''formatter''))
            then [FormatterConfig targetPath (blackConfig T)] else [])
         @ (if truthy (opts (js ''preCommit'')) then generatePreCommitConfig T targetPath else [])
         @ (if truthy (opts (js ''logging'')) then generateLoggingConfig T targetPath else [])
         @ (if truthy (opts (js ''monitoring'')) then generateMonitoring targetPath else [])
         @ (if truthy (opts (js ''readme''))
            then generateREADME T targetPath (go_projectName options) opts else [])
         @ generateMainPy T targetPath (go_projectName options) opts
         @ generateConfigPy T targetPath (go_projectName options) opts
         @ [ReplacePlaceholders targetPath (projectReplacements (go_projectName options))])"

text \<open>
  The generators that write no optional files: the base class, and the Express generator,
  whose option branches are empty and which only substitutes the project name.
\<close>

definition baseGenerateOptionalFiles :: "path \<Rightarrow> generatorOptions \<Rightarrow> action list" where
  "baseGenerateOptionalFiles targetPath options = []"

definition expressGenerateOptionalFiles :: "path \<Rightarrow> generatorOptions \<Rightarrow> action list" where
  "expressGenerateOptionalFiles targetPath options =
     [ReplacePlaceholders targetPath [(js ''projectName'', go_projectName options)]]"

section \<open>BaseGenerator.generate\<close>

text \<open>
  \<open>generate\<close> takes the method \<open>generateOptionalFiles\<close> of the subclass, the template
  path that \<open>getTemplatePath\<close> found and the target path as \<open>path.resolve\<close> made it. It
  returns the error that rejected the promise, if any, and the file system it leaves.
\<close>

definition generate ::
  "(path \<Rightarrow> generatorOptions \<Rightarrow> action list) \<Rightarrow> path \<Rightarrow> path \<Rightarrow> generatorOptions \<Rightarrow> node
     \<Rightarrow> error option \<times> node" where
  "generate optionalFiles templatePath targetPath options fs =
     (if \<not> pathExists fs templatePath
      then (Some (Error (js ''Template not found: '' @ pathString templatePath)), fs)
      else if pathExists fs targetPath
      then (Some (Error (js ''Directory '' @ go_targetPath options @ js '' already exists'')), fs)
      else run ([EnsureDir targetPath, CopyTemplate templatePath targetPath]
                @ optionalFiles targetPath options) fs)"

subsection \<open>The files a list of operations writes\<close>

text \<open>
  The paths that the write calls of an operation address. The formatter step addresses
  \<open>pyproject.toml\<close>.
\<close>

fun writeTargets :: "action \<Rightarrow> path list" where
  "writeTargets (EnsureDir p) = []"
| "writeTargets (WriteFile p content) = [p]"
| "writeTargets (FormatterConfig targetPath blackSection) = [targetPath @ [js ''pyproject.toml'']]"
| "writeTargets (CopyTemplate sourcePath targetPath) = []"
| "writeTargets (ReplacePlaceholders dirPath r) = []"

definition writtenFiles :: "action list \<Rightarrow> path set" where
  "writtenFiles actions = set (concat (map writeTargets actions))"

text \<open>
  An operation leaves a path alone when it is no copy and none of its write calls
  addresses the path.
\<close>

fun leaves :: "path \<Rightarrow> action \<Rightarrow> bool" where
  "leaves q (CopyTemplate sourcePath targetPath) = False"
| "leaves q a = (q \<notin> set (writeTargets a))"

definition optionsMap :: "projectOptions \<Rightarrow> jsstring \<Rightarrow> generatorOptions" where
  "optionsMap opts projectName =
     \<lparr>go_projectName = projectName, go_targetPath = projectName, go_options = Some opts\<rparr>"

subsection \<open>The manifest in parts, for the proofs\<close>

text \<open>
  What one catalogue entry pushes in the loop, what a default branch pushes (the key is
  neither truthy nor \<open>false\<close>), and all dependencies the catalogue declares.
\<close>

definition optionRequirements :: "projectOptions \<Rightarrow> pythonOption \<Rightarrow> jsstring list" where
  "optionRequirements opts option =
     (case opt_dependencies option of
        Some dependencies \<Rightarrow>
          if truthy (opts (opt_key option)) then map (\<lambda>dep. dep @ js ''>=0.0.0'') dependencies else []
      | None \<Rightarrow> [])"

definition defaultRequirements :: "projectOptions \<Rightarrow> jsstring \<Rightarrow> jsstring list \<Rightarrow> jsstring list" where
  "defaultRequirements opts k lines = (if notFalse (opts k) \<and> \<not> truthy (opts k) then lines else [])"

definition catalogueDependencies :: "jsstring list" where
  "catalogueDependencies =
     concat (map (\<lambda>option. case opt_dependencies option of Some ds \<Rightarrow> ds | None \<Rightarrow> []) PYTHON_OPTIONS)"

text \<open>Every line that some choice of options can put into the manifest.\<close>

definition possibleRequirements :: "jsstring list" where
  "possibleRequirements =
     baseRequirements @ map (\<lambda>dep. dep @ js ''>=0.0.0'') catalogueDependencies
     @ [js ''python-dotenv>=1.0.0'', js ''pytest>=7.4.3'', js ''pytest-asyncio>=0.21.1'',
        js ''httpx>=0.25.2'']"

section \<open>Texts as literal pieces and tokens, for the statements on substitution\<close>

text \<open>
  A text is seen as a sequence of literal pieces and tokens \<open>{{key}}\<close>; \<open>render\<close> writes
  it out. A literal piece is plain when it has no two opening braces in a row and does
  not end in an opening brace, a key is brace-free when it has no brace, and a sequence is
  well formed when its pieces are plain and its keys brace-free. \<open>substitute\<close> replaces a
  token by the value the replacement map has for its key, and leaves every other segment
  as it is; \<open>substituteKey\<close> does so for one key. A replacement list is good when its keys
  are brace-free and its values are plain and have no dollar sign.
\<close>

datatype segment = Literal jsstring | Token jsstring

fun render :: "segment list \<Rightarrow> jsstring" where
  "render [] = []"
| "render (Literal t # rest) = t @ render rest"
| "render (Token key # rest) = placeholder key @ render rest"

fun plainText :: "jsstring \<Rightarrow> bool" where
  "plainText [] = True"
| "plainText [c] = (c \<noteq> 0x7B)"
| "plainText (c # d # rest) = ((c \<noteq> 0x7B \<or> d \<noteq> 0x7B) \<and> plainText (d # rest))"

definition braceFree :: "jsstring \<Rightarrow> bool" where
  "braceFree key = (0x7B \<notin> set key \<and> 0x7D \<notin> set key)"

fun wellFormed :: "segment list \<Rightarrow> bool" where
  "wellFormed [] = True"
| "wellFormed (Literal t # rest) = (plainText t \<and> wellFormed rest)"
| "wellFormed (Token key # rest) = (braceFree key \<and> wellFormed rest)"

fun substituteKey :: "jsstring \<Rightarrow> jsstring \<Rightarrow> segment \<Rightarrow> segment" where
  "substituteKey key val (Literal t) = Literal t"
| "substituteKey key val (Token k) = (if k = key then Literal val else Token k)"

fun substitute :: "replacements \<Rightarrow> segment \<Rightarrow> segment" where
  "substitute r (Literal t) = Literal t"
| "substitute r (Token k) = (case map_of r k of Some val \<Rightarrow> Literal val | None \<Rightarrow> Token k)"

fun goodReplacements :: "replacements \<Rightarrow> bool" where
  "goodReplacements [] = True"
| "goodReplacements ((key, val) # rest) =
     (braceFree key \<and> 0x24 \<notin> set val \<and> plainText val \<and> goodReplacements rest)"

section \<open>A small disk, for the examples\<close>

text \<open>
  A generator whose texts are all empty; a template with the directories \<open>app/core\<close>, a
  file \<open>LICENSE\<close> that the process may read but not write, a \<open>.gitignore\<close> and a
  directory \<open>.git\<close>; a disk that holds this template; the same disk with the directory
  \<open>demo\<close> already on it; a disk whose template is an empty directory; and the request for the project \<open>demo\<close> without options.
\<close>

definition sampleTexts :: texts where
  "sampleTexts =
     \<lparr>modelsContent = [], sessionContent = [], alembicIni = [], envPy = [], scriptMako = [],
      dockerfile = [], dockerignore = [], dockerCompose = (\<lambda>projectName opts. []),
      pytestIni = [], conftest = [], testMain = [], envExample = [], prodConfig = [],
      devConfig = [], ruffToml = [], blackConfig = [], preCommitContent = [],
      loggingConfig = [], readme = (\<lambda>projectName opts. []),
      mainPy = (\<lambda>projectName opts. []), configPy = (\<lambda>projectName opts. [])\<rparr>"

definition sampleTemplate :: node where
  "sampleTemplate =
     Dir [(js ''app'', Dir [(js ''core'', Dir [])]),
          (js ''LICENSE'', File (js ''(c) {{projectName}}'') True False),
          (js ''.gitignore'', File (js ''venv'') True True),
          (js ''.git'', Dir [(js ''HEAD'', File (js ''main'') True True)])]"

definition sampleCopy :: node where
  "sampleCopy =
     Dir [(js ''app'', Dir [(js ''core'', Dir [])]),
          (js ''LICENSE'', File (js ''(c) {{projectName}}'') True False),
          (js ''.gitignore'', File (js ''venv'') True True)]"

definition sampleDisk :: node where
  "sampleDisk = Dir [(js ''templates'', Dir [(js ''fastapi'', sampleTemplate)])]"

definition occupiedDisk :: node where
  "occupiedDisk =
     Dir [(js ''templates'', Dir [(js ''fastapi'', sampleTemplate)]),
          (js ''demo'', Dir [(js ''notes.txt'', File (js ''keep'') True True)])]"

definition bareDisk :: node where
  "bareDisk = Dir [(js ''templates'', Dir [(js ''fastapi'', Dir [])])]"

text \<open>A disk that holds the directories \<open>app\<close> and \<open>app/core\<close> and no file.\<close>

definition projectDisk :: node where
  "projectDisk = Dir [(js ''app'', Dir [(js ''core'', Dir [])])]"

definition sampleRequest :: generatorOptions where
  "sampleRequest =
     \<lparr>go_projectName = js ''demo'', go_targetPath = js ''demo'', go_options = None\<rparr>"

section \<open>Project-name validation: properties\<close>

lemma trim_empty_iff: "trim n = [] \<longleftrightarrow> dropWhile isWhiteSpace n = []"
proof
  assume "dropWhile isWhiteSpace n = []"
  then show "trim n = []"
    by (simp add: trim_def del: dropWhile_eq_Nil_conv)
next
  assume t: "trim n = []"
  show "dropWhile isWhiteSpace n = []"
  proof (rule ccontr)
    assume ne: "dropWhile isWhiteSpace n \<noteq> []"
    then have "\<not> isWhiteSpace (hd (dropWhile isWhiteSpace n))"
      by (rule hd_dropWhile)
    moreover have "hd (dropWhile isWhiteSpace n) \<in> set (rev (dropWhile isWhiteSpace n))"
      using ne by simp
    moreover from t have "\<forall>x\<in>set (rev (dropWhile isWhiteSpace n)). isWhiteSpace x"
      by (simp add: trim_def dropWhile_eq_Nil_conv)
    ultimately show False by blast
  qed
qed

lemma blankName_iff: "blankName n \<longleftrightarrow> (n = [] \<or> trim n = [])"
  by (auto simp: blankName_def trim_empty_iff list_all_iff)

lemma forbiddenChar_iff: "forbiddenChar c \<longleftrightarrow> invalidChars c"
  by (auto simp: forbiddenChar_def invalidChars_def js_def)

lemma hasForbiddenChar_iff: "hasForbiddenChar n \<longleftrightarrow> invalidChars_test n"
  by (simp add: hasForbiddenChar_def invalidChars_test_def list_ex_iff forbiddenChar_iff)

lemma upper_lower: "upperUnit (lowerUnit c) = upperUnit c"
  by (simp add: upperUnit_def lowerUnit_def)

lemma lower_upper: "lowerUnit (upperUnit c) = lowerUnit c"
  by (auto simp: upperUnit_def lowerUnit_def)

lemma equalIgnoringCase_iff: "equalIgnoringCase a b \<longleftrightarrow> toUpperCase a = toUpperCase b"
proof
  assume "equalIgnoringCase a b"
  then have "map upperUnit (map lowerUnit a) = map upperUnit (map lowerUnit b)"
    by (simp add: equalIgnoringCase_def)
  then show "toUpperCase a = toUpperCase b"
    by (simp add: toUpperCase_def upper_lower o_def)
next
  assume "toUpperCase a = toUpperCase b"
  then have "map lowerUnit (map upperUnit a) = map lowerUnit (map upperUnit b)"
    by (simp add: toUpperCase_def)
  then show "equalIgnoringCase a b"
    by (simp add: equalIgnoringCase_def lower_upper o_def)
qed

lemma reserved_upper: "r \<in> set reservedNames \<Longrightarrow> toUpperCase r = r"
  by (auto simp: reservedNames_def js_def toUpperCase_def upperUnit_def)

lemma reservedName_iff: "reservedName n \<longleftrightarrow> toUpperCase n \<in> set reservedNames"
  by (auto simp: reservedName_def list_ex_iff equalIgnoringCase_iff reserved_upper)

text \<open>
  Claim C6. A name that is blank (empty or white space only), or has a forbidden
  character (one of \<open>/ : * \ < > " | ?\<close> or a control character below 0x20), or equals a
  reserved device name up to case, is rejected by \<open>validateProjectName\<close>, and
  \<open>getProjectNameError\<close> returns a non-empty message for it, the message of the first
  of the three checks that fails; every other name is accepted, with no message.
\<close>

theorem validation_rule:
  "(invalidName n \<longrightarrow>
      \<not> validateProjectName n \<and> (\<exists>m. getProjectNameError n = Some m \<and> m \<noteq> []))
   \<and> (\<not> invalidName n \<longrightarrow> validateProjectName n \<and> getProjectNameError n = None)
   \<and> (blankName n \<longrightarrow> getProjectNameError n = Some (js ''Project name cannot be empty''))
   \<and> (\<not> blankName n \<and> hasForbiddenChar n \<longrightarrow>
        getProjectNameError n = Some (js ''Project name contains invalid characters''))
   \<and> (\<not> blankName n \<and> \<not> hasForbiddenChar n \<and> reservedName n \<longrightarrow>
        getProjectNameError n = Some (js ''Project name is a reserved name''))"
  by (simp add: invalidName_def validateProjectName_def getProjectNameError_def
      blankName_iff hasForbiddenChar_iff reservedName_iff js_def)

text \<open>
  The rule at five names: a blank one (a tab and a no-break space), one with a slash,
  one with a control character, a reserved one in mixed case, and a valid one.
\<close>

theorem validation_rule_witness:
  "(invalidName [0x09, 0xA0] \<and> \<not> validateProjectName [0x09, 0xA0]
      \<and> getProjectNameError [0x09, 0xA0] = Some (js ''Project name cannot be empty''))
   \<and> (invalidName (js ''a/b'') \<and> \<not> validateProjectName (js ''a/b'')
      \<and> getProjectNameError (js ''a/b'') = Some (js ''Project name contains invalid characters''))
   \<and> (invalidName (js ''a'' @ [0x1B]) \<and> \<not> validateProjectName (js ''a'' @ [0x1B]))
   \<and> (invalidName (js ''Lpt1'') \<and> \<not> validateProjectName (js ''Lpt1'')
      \<and> getProjectNameError (js ''Lpt1'') = Some (js ''Project name is a reserved name''))
   \<and> (\<not> invalidName (js ''my-app'') \<and> validateProjectName (js ''my-app'')
      \<and> getProjectNameError (js ''my-app'') = None)"
  using validation_rule [of "[0x09, 0xA0]"] validation_rule [of "js ''a/b''"]
    validation_rule [of "js ''a'' @ [0x1B]"] validation_rule [of "js ''Lpt1''"]
    validation_rule [of "js ''my-app''"]
  by (simp add: invalidName_def blankName_def isWhiteSpace_def hasForbiddenChar_def
      forbiddenChar_def reservedName_def reservedNames_def equalIgnoringCase_def
      lowerUnit_def js_def)

text \<open>
  Claim C10. The boolean validator and the error-message validator accept the same
  names: \<open>validateProjectName n\<close> is true exactly when \<open>getProjectNameError n\<close> is null.
\<close>

theorem validators_agree:
  "validateProjectName n \<longleftrightarrow> getProjectNameError n = None"
  by (simp add: validateProjectName_def getProjectNameError_def)

section \<open>Template copy filter: properties\<close>

lemma basename_component:
  assumes "name \<noteq> []" and "0x2F \<notin> set name"
  shows "basename (dir @ js ''/'' @ name) = name"
proof -
  have d: "dropWhile (\<lambda>c. c = 0x2F) (rev name @ 0x2F # rev dir) = rev name @ 0x2F # rev dir"
    using assms by (cases "rev name") auto
  have t: "takeWhile (\<lambda>c. c \<noteq> 0x2F) (rev name @ 0x2F # rev dir) = rev name"
    using assms by (subst takeWhile_append2) auto
  show ?thesis
    by (simp add: basename_def js_def d t)
qed

lemma startsWith_dot: "startsWith name (js ''.'') \<longleftrightarrow> (name \<noteq> [] \<and> hd name = 0x2E)"
  by (cases name) (auto simp: js_def)

text \<open>
  Claim C7. For an entry \<open>name\<close> (a non-empty path component) in any directory, the base
  name seen by the filter is \<open>name\<close>, and the filter excludes the entry exactly when
  \<open>name\<close> starts with a dot and is not the literal \<open>.gitignore\<close>: a test on the first
  character and one string comparison, no pattern matching.
\<close>

theorem dotfile_exclusion:
  assumes "name \<noteq> []" and "0x2F \<notin> set name"
  shows "basename (dir @ js ''/'' @ name) = name
     \<and> (\<not> copyFilter (dir @ js ''/'' @ name) \<longleftrightarrow> hd name = 0x2E \<and> name \<noteq> js ''.gitignore'')"
  using assms by (simp add: copyFilter_def Let_def basename_component startsWith_dot)

theorem dotfile_exclusion_witness:
  "\<not> copyFilter (js ''templates/python/fastapi/.env'')
   \<and> \<not> copyFilter (js ''templates/python/fastapi/.gitignore.bak'')
   \<and> \<not> copyFilter (js ''templates/python/fastapi/.git'')
   \<and> copyFilter (js ''templates/python/fastapi/.gitignore'')
   \<and> copyFilter (js ''templates/python/fastapi/app.gitignore'')
   \<and> copyFilter (js ''templates/python/fastapi/main.py'')"
  using dotfile_exclusion [of "js ''.env''" "js ''templates/python/fastapi''"]
    dotfile_exclusion [of "js ''.gitignore.bak''" "js ''templates/python/fastapi''"]
    dotfile_exclusion [of "js ''.git''" "js ''templates/python/fastapi''"]
    dotfile_exclusion [of "js ''.gitignore''" "js ''templates/python/fastapi''"]
    dotfile_exclusion [of "js ''app.gitignore''" "js ''templates/python/fastapi''"]
    dotfile_exclusion [of "js ''main.py''" "js ''templates/python/fastapi''"]
  by (simp add: js_def)

section \<open>Generator registry: properties\<close>

text \<open>
  Claim C8. \<open>getGenerator\<close> throws exactly when no constructor is stored under the key
  made of the language, a colon and the framework, and then with the not-found message; when a constructor is
  stored, it returns the instance that constructor builds. So it succeeds exactly when
  \<open>hasGenerator\<close> holds, and the missing key is its only error.
\<close>

theorem registry_instantiation:
  "((\<exists>e. getGenerator gmap new l f = Inl e) \<longleftrightarrow> gmap (l @ js '':'' @ f) = None)
   \<and> (\<forall>G. gmap (l @ js '':'' @ f) = Some G \<longrightarrow> getGenerator gmap new l f = Inr (new G))
   \<and> (hasGenerator gmap l f \<longleftrightarrow> gmap (l @ js '':'' @ f) \<noteq> None)
   \<and> (hasGenerator gmap l f \<longleftrightarrow> (\<exists>g. getGenerator gmap new l f = Inr g))
   \<and> (gmap (l @ js '':'' @ f) = None \<longrightarrow>
        getGenerator gmap new l f = Inl (Error (js ''No generator found for '' @ l @ js '':'' @ f)))"
  by (auto simp: getGenerator_def hasGenerator_def Let_def split: option.splits)

text \<open>A registration overwrites what the key had, and is what the next lookup finds.\<close>

lemma registered_generator_found:
  "getGenerator (registerGenerator gmap l f G) new l f = Inr (new G)"
  by (simp add: getGenerator_def registerGenerator_def Let_def)

text \<open>
  The registry of the source holds the keys \<open>python:fastapi\<close> and \<open>js:express\<close>. The
  pair python and fastapi is found; python with django, js with fastapi and python with
  express are not: both parts of the key count.
\<close>

theorem registry_instantiation_witness:
  "generatorMap (js ''python:fastapi'') = Some FastAPIGenerator
   \<and> getGenerator generatorMap construct (js ''python'') (js ''fastapi'')
       = Inr (construct FastAPIGenerator)
   \<and> hasGenerator generatorMap (js ''python'') (js ''fastapi'')
   \<and> generatorMap (js ''python:django'') = None
   \<and> getGenerator generatorMap construct (js ''python'') (js ''django'')
       = Inl (Error (js ''No generator found for python:django''))
   \<and> \<not> hasGenerator generatorMap (js ''python'') (js ''django'')
   \<and> generatorMap (js ''js:fastapi'') = None
   \<and> getGenerator generatorMap construct (js ''js'') (js ''fastapi'')
       = Inl (Error (js ''No generator found for js:fastapi''))
   \<and> generatorMap (js ''python:express'') = None
   \<and> getGenerator generatorMap construct (js ''python'') (js ''express'')
       = Inl (Error (js ''No generator found for python:express''))"
  using registry_instantiation [of generatorMap construct "js ''python''" "js ''fastapi''"]
    registry_instantiation [of generatorMap construct "js ''python''" "js ''django''"]
    registry_instantiation [of generatorMap construct "js ''js''" "js ''fastapi''"]
    registry_instantiation [of generatorMap construct "js ''python''" "js ''express''"]
  by (simp add: generatorMap_def js_def)

section \<open>BaseGenerator.generate: properties\<close>

text \<open>
  Claim C4. When the template path and the target path both exist, \<open>generate\<close> fails
  with the error that the directory already exists, whatever the generator and the
  options, and the file system is the one it was given: nothing has been written.
\<close>

theorem existing_target_rejected:
  assumes "pathExists fs templatePath" and "pathExists fs targetPath"
  shows "generate optionalFiles templatePath targetPath options fs =
     (Some (Error (js ''Directory '' @ go_targetPath options @ js '' already exists'')), fs)"
  using assms by (simp add: generate_def)

theorem existing_target_rejected_witness:
  "pathExists occupiedDisk [js ''templates'', js ''fastapi'']
   \<and> pathExists occupiedDisk [js ''demo'']
   \<and> generate (generateOptionalFiles sampleTexts) [js ''templates'', js ''fastapi''] [js ''demo'']
         sampleRequest occupiedDisk
       = (Some (Error (js ''Directory demo already exists'')), occupiedDisk)
   \<and> generate expressGenerateOptionalFiles [js ''templates'', js ''fastapi''] [js ''demo'']
         (optionsMap [js ''docker'' \<mapsto> Boolean True] (js ''demo'')) occupiedDisk
       = (Some (Error (js ''Directory demo already exists'')), occupiedDisk)"
proof -
  have 1: "pathExists occupiedDisk [js ''templates'', js ''fastapi'']"
    and 2: "pathExists occupiedDisk [js ''demo'']"
    by (simp_all add: pathExists_def occupiedDisk_def js_def)
  show ?thesis
    using existing_target_rejected [OF 1 2, of "generateOptionalFiles sampleTexts" sampleRequest]
      existing_target_rejected [OF 1 2, of expressGenerateOptionalFiles
        "optionsMap [js ''docker'' \<mapsto> Boolean True] (js ''demo'')"] 1 2
    by (simp add: sampleRequest_def optionsMap_def js_def)
qed

text \<open>
  The operations before the substitution pass are awaited outside any \<open>try\<close> block: the
  first that fails ends the run with its error, and what was written before stays.
\<close>

lemma run_append:
  "run (xs @ ys) fs =
     (case run xs fs of (None, fs') \<Rightarrow> run ys fs' | (Some e, fs') \<Rightarrow> (Some e, fs'))"
  by (induction xs arbitrary: fs) (auto split: prod.splits option.splits)

lemma run_stops_at_failure:
  assumes "run xs fs = (None, fs')" and "perform a fs' = (Some e, fs'')"
  shows "run (xs @ a # ys) fs = (Some e, fs'')"
  using assms by (simp add: run_append)

text \<open>Without options, the generator writes three files and then substitutes.\<close>

lemma sample_optional_files:
  "generateOptionalFiles sampleTexts [js ''demo''] sampleRequest =
      [WriteFile [js ''demo'', js ''requirements.txt''] (requirementsTxt Map.empty),
       WriteFile [js ''demo'', js ''app'', js ''main.py''] [],
       WriteFile [js ''demo'', js ''app'', js ''core'', js ''config.py''] [],
       ReplacePlaceholders [js ''demo''] (projectReplacements (js ''demo''))]"
  by (simp add: generateOptionalFiles_def sampleRequest_def sampleTexts_def Let_def
      generateRequirementsTxt_def generateMainPy_def generateConfigPy_def)

text \<open>
  A write that fails ends the run: the empty template has no directory \<open>app\<close>, so the
  write of \<open>app/main.py\<close> fails with \<open>ENOENT\<close>; \<open>generate\<close> returns that error, and the
  manifest written before stays on the disk.
\<close>

lemma conditional_write_failure_aborts:
  "generate (generateOptionalFiles sampleTexts) [js ''templates'', js ''fastapi''] [js ''demo'']
      sampleRequest bareDisk
     = (Some ENOENT,
        Dir [(js ''templates'', Dir [(js ''fastapi'', Dir [])]),
             (js ''demo'',
              Dir [(js ''requirements.txt'', File (requirementsTxt Map.empty) True True)])])"
proof -
  have f: "copyFilter (js ''/templates/fastapi'')"
    by (simp add: copyFilter_def basename_def js_def)
  show ?thesis
    using f unfolding generate_def sample_optional_files
    by (simp add: bareDisk_def pathExists_def copyTemplate_def copy_def checkPaths_def
        kindError_def pathString_def writeFile_def js_def)
qed

text \<open>
  The copy of the sample template: the directory \<open>.git\<close> is left out with what it
  holds, \<open>.gitignore\<close> is kept, and \<open>LICENSE\<close> keeps its permissions.
\<close>

lemma copyFilter_examples:
  "copyFilter (js ''/templates/fastapi'')"
  "copyFilter (js ''/templates/fastapi/app'')"
  "copyFilter (js ''/templates/fastapi/app/core'')"
  "copyFilter (js ''/templates/fastapi/LICENSE'')"
  "copyFilter (js ''/templates/fastapi/.gitignore'')"
  "\<not> copyFilter (js ''/templates/fastapi/.git'')"
  by (simp_all add: copyFilter_def basename_def js_def)

lemma sample_copy:
  "run [EnsureDir [js ''demo''], CopyTemplate [js ''templates'', js ''fastapi''] [js ''demo'']]
       sampleDisk
     = (None,
        Dir [(js ''templates'', Dir [(js ''fastapi'', sampleTemplate)]),
             (js ''demo'', sampleCopy)])"
  using copyFilter_examples
  by (simp add: sampleDisk_def sampleTemplate_def sampleCopy_def copyTemplate_def copy_def
      checkPaths_def kindError_def pathString_def pathJoin_def js_def)

lemma sample_generate:
  "generate (generateOptionalFiles sampleTexts) [js ''templates'', js ''fastapi''] [js ''demo'']
      sampleRequest sampleDisk =
   (None,
    Dir [(js ''templates'', Dir [(js ''fastapi'', sampleTemplate)]),
         (js ''demo'',
          Dir [(js ''app'',
                Dir [(js ''core'',
                      Dir [(js ''config.py'',
                            File (applyReplacements (projectReplacements (js ''demo'')) []) True True)]),
                     (js ''main.py'',
                      File (applyReplacements (projectReplacements (js ''demo'')) []) True True)]),
               (js ''LICENSE'', File (js ''(c) {{projectName}}'') True False),
               (js ''.gitignore'',
                File (applyReplacements (projectReplacements (js ''demo'')) (js ''venv'')) True True),
               (js ''requirements.txt'',
                File (applyReplacements (projectReplacements (js ''demo''))
                        (requirementsTxt Map.empty)) True True)])])"
proof -
  have pre: "\<not> pathExists sampleDisk [js ''demo'']"
    "pathExists sampleDisk [js ''templates'', js ''fastapi'']"
    by (simp_all add: pathExists_def sampleDisk_def js_def)
  have rest: "run (generateOptionalFiles sampleTexts [js ''demo''] sampleRequest)
       (Dir [(js ''templates'', Dir [(js ''fastapi'', sampleTemplate)]), (js ''demo'', sampleCopy)])
     = (None,
    Dir [(js ''templates'', Dir [(js ''fastapi'', sampleTemplate)]),
         (js ''demo'',
          Dir [(js ''app'',
                Dir [(js ''core'',
                      Dir [(js ''config.py'',
                            File (applyReplacements (projectReplacements (js ''demo'')) []) True True)]),
                     (js ''main.py'',
                      File (applyReplacements (projectReplacements (js ''demo'')) []) True True)]),
               (js ''LICENSE'', File (js ''(c) {{projectName}}'') True False),
               (js ''.gitignore'',
                File (applyReplacements (projectReplacements (js ''demo'')) (js ''venv'')) True True),
               (js ''requirements.txt'',
                File (applyReplacements (projectReplacements (js ''demo''))
                        (requirementsTxt Map.empty)) True True)])])"
    unfolding sample_optional_files
    by (simp add: sampleCopy_def writeFile_def replacePlaceholders_def js_def
        del: applyReplacements.simps)
  show ?thesis
    using pre
    by (simp only: generate_def if_True if_False simp_thms run_append sample_copy rest
        prod.case option.case)
qed

lemma sample_substitution:
  "applyReplacements (projectReplacements (js ''demo'')) (js ''(c) {{projectName}}'') = js ''(c) demo''"
  by (simp add: projectReplacements_def replaceToken.simps placeholder_def js_def)

text \<open>
  Claim C5 does not hold of the code. The template holds a file \<open>LICENSE\<close> that may be
  read but not written, and \<open>fs.copy\<close> keeps its permissions. In the substitution pass
  the text of the file is read and rewritten to \<open>(c) demo\<close>, and writing it back fails
  with \<open>EACCES\<close>; the \<open>catch\<close> takes that error as if the file could not be read.
  So \<open>generate\<close> completes without error and leaves the placeholder in the file. The
  walk \<open>replaceInFiles\<close> of the utilities, which has no \<open>try\<close> block, ends with
  \<open>EACCES\<close> on the same tree.
\<close>

theorem substitution_write_failure_swallowed:
  "fst (generate (generateOptionalFiles sampleTexts) [js ''templates'', js ''fastapi''] [js ''demo'']
          sampleRequest sampleDisk) = None
   \<and> lookup (snd (generate (generateOptionalFiles sampleTexts) [js ''templates'', js ''fastapi'']
          [js ''demo''] sampleRequest sampleDisk)) [js ''demo'', js ''LICENSE'']
       = Some (File (js ''(c) {{projectName}}'') True False)
   \<and> applyReplacements (projectReplacements (js ''demo'')) (js ''(c) {{projectName}}'')
       = js ''(c) demo''
   \<and> writeNode (js ''(c) demo'') (Some (File (js ''(c) {{projectName}}'') True False)) = Inl EACCES
   \<and> replaceInFiles [js ''demo''] (projectReplacements (js ''demo''))
         (snd (generate (generateOptionalFiles sampleTexts) [js ''templates'', js ''fastapi'']
            [js ''demo''] sampleRequest sampleDisk))
       = Inl EACCES"
  unfolding sample_generate sample_substitution
  by (simp add: replaceInFiles_def js_def del: applyReplacements.simps)

section \<open>Placeholder substitution: properties\<close>

text \<open>A replacement without a dollar sign is inserted as it is.\<close>

lemma getSubstitution_plain:
  "0x24 \<notin> set val \<Longrightarrow> getSubstitution matched preceding following val = val"
  by (induction matched preceding following val rule: getSubstitution.induct) auto

lemma startsWith_append: "startsWith (p @ rest) p"
  by (induction p) auto

lemma startsWith_placeholder_open:
  "startsWith (c # s) (placeholder key) \<Longrightarrow> c = 0x7B \<and> s \<noteq> [] \<and> hd s = 0x7B"
  by (cases s) (auto simp: placeholder_def js_def)

lemma replaceToken_skip:
  "\<not> startsWith (c # s) (placeholder key) \<Longrightarrow>
     replaceToken key val preceding (c # s) = c # replaceToken key val (preceding @ [c]) s"
  by (subst replaceToken.simps) simp

lemma replaceToken_Nil: "replaceToken key val preceding [] = []"
  by (subst replaceToken.simps) (simp add: placeholder_def js_def)

lemma replaceToken_match:
  "replaceToken key val preceding (placeholder key @ rest) =
     getSubstitution (placeholder key) preceding rest val
     @ replaceToken key val (preceding @ placeholder key) rest"
  by (subst replaceToken.simps) (simp add: startsWith_append)

text \<open>A text without an opening brace is passed over.\<close>

lemma replaceToken_no_open:
  "0x7B \<notin> set u \<Longrightarrow>
     replaceToken key val preceding (u @ rest) = u @ replaceToken key val (preceding @ u) rest"
proof (induction u arbitrary: preceding)
  case Nil
  then show ?case by simp
next
  case (Cons c u)
  have "\<not> startsWith (c # u @ rest) (placeholder key)"
    using Cons.prems startsWith_placeholder_open by fastforce
  then show ?case
    using Cons by (simp add: replaceToken_skip)
qed

lemma plainText_tail: "plainText (c # t) \<Longrightarrow> plainText t"
  by (cases t) auto

lemma plainText_no_match:
  "plainText (c # t) \<Longrightarrow> \<not> startsWith (c # t @ rest) (placeholder key)"
proof
  assume p: "plainText (c # t)" and s: "startsWith (c # t @ rest) (placeholder key)"
  from s have c: "c = 0x7B" and ne: "t @ rest \<noteq> []" and h: "hd (t @ rest) = 0x7B"
    using startsWith_placeholder_open by blast+
  show False
  proof (cases t)
    case Nil
    with p c show False by simp
  next
    case (Cons d t')
    with p c h show False by simp
  qed
qed

text \<open>So is a plain literal piece, whatever follows it.\<close>

lemma replaceToken_literal:
  "plainText t \<Longrightarrow>
     replaceToken key val preceding (t @ rest) = t @ replaceToken key val (preceding @ t) rest"
proof (induction t arbitrary: preceding)
  case Nil
  then show ?case by simp
next
  case (Cons c t)
  have "\<not> startsWith (c # t @ rest) (placeholder key)"
    using Cons.prems by (rule plainText_no_match)
  then show ?case
    using Cons plainText_tail by (simp add: replaceToken_skip)
qed

lemma key_match_aux:
  "0x7D \<notin> set k \<Longrightarrow> 0x7D \<notin> set k' \<Longrightarrow>
     startsWith (k' @ 0x7D # w) (k @ 0x7D # z) \<Longrightarrow> k' = k"
proof (induction k' arbitrary: k)
  case Nil
  then show ?case by (cases k) auto
next
  case (Cons a k')
  then show ?case by (cases k) auto
qed

lemma key_match:
  assumes "braceFree k" and "braceFree k'"
    and "startsWith (placeholder k' @ rest) (placeholder k)"
  shows "k' = k"
proof -
  from assms(3) have "startsWith (k' @ 0x7D # 0x7D # rest) (k @ 0x7D # [0x7D])"
    by (simp add: placeholder_def js_def)
  with assms(1,2) show ?thesis
    unfolding braceFree_def using key_match_aux by blast
qed

lemma placeholder_unfold: "placeholder k = 0x7B # 0x7B # (k @ [0x7D, 0x7D])"
  by (simp add: placeholder_def js_def)

lemma second_not_open:
  "braceFree k' \<Longrightarrow> \<not> startsWith (0x7B # (k' @ [0x7D, 0x7D]) @ rest) (placeholder k)"
proof
  assume b: "braceFree k'" and s: "startsWith (0x7B # (k' @ [0x7D, 0x7D]) @ rest) (placeholder k)"
  from s have "hd ((k' @ [0x7D, 0x7D]) @ rest) = 0x7B"
    using startsWith_placeholder_open by blast
  with b show False
    by (cases k') (auto simp: braceFree_def)
qed

text \<open>A token with another key is passed over as well.\<close>

lemma replaceToken_other:
  assumes "braceFree k" and "braceFree k'" and "k' \<noteq> k"
  shows "replaceToken k val preceding (placeholder k' @ rest) =
           placeholder k' @ replaceToken k val (preceding @ placeholder k') rest"
proof -
  let ?u = "k' @ [0x7D, 0x7D]"
  have 0: "\<not> startsWith (0x7B # (0x7B # ?u @ rest)) (placeholder k)"
    using key_match [OF assms(1,2), of rest] assms(3) by (auto simp: placeholder_unfold)
  have 1: "\<not> startsWith (0x7B # ?u @ rest) (placeholder k)"
    using second_not_open [OF assms(2)] by simp
  have 2: "0x7B \<notin> set ?u"
    using assms(2) by (simp add: braceFree_def)
  have "replaceToken k val preceding (placeholder k' @ rest)
      = replaceToken k val preceding (0x7B # (0x7B # ?u @ rest))"
    by (simp add: placeholder_unfold)
  also have "\<dots> = 0x7B # replaceToken k val (preceding @ [0x7B]) (0x7B # ?u @ rest)"
    using 0 by (rule replaceToken_skip)
  also have "\<dots> = 0x7B # 0x7B # replaceToken k val ((preceding @ [0x7B]) @ [0x7B]) (?u @ rest)"
    using replaceToken_skip [OF 1] by simp
  also have "\<dots> = 0x7B # 0x7B # ?u @ replaceToken k val (((preceding @ [0x7B]) @ [0x7B]) @ ?u) rest"
    using replaceToken_no_open [OF 2] by simp
  finally show ?thesis
    by (simp add: placeholder_unfold)
qed

text \<open>One pass replaces exactly the tokens of its key.\<close>

lemma replaceToken_render:
  assumes "braceFree key" and "0x24 \<notin> set val"
  shows "wellFormed segs \<Longrightarrow>
     replaceToken key val preceding (render segs) = render (map (substituteKey key val) segs)"
proof (induction segs arbitrary: preceding)
  case Nil
  then show ?case by (simp add: replaceToken_Nil)
next
  case (Cons seg segs)
  show ?case
  proof (cases seg)
    case (Literal t)
    with Cons show ?thesis by (simp add: replaceToken_literal)
  next
    case (Token k)
    show ?thesis
    proof (cases "k = key")
      case True
      with Token Cons assms show ?thesis
        by (simp add: replaceToken_match getSubstitution_plain)
    next
      case False
      with Token Cons assms show ?thesis
        by (simp add: replaceToken_other)
    qed
  qed
qed

lemma wellFormed_substituteKey:
  "plainText val \<Longrightarrow> wellFormed segs \<Longrightarrow> wellFormed (map (substituteKey key val) segs)"
proof (induction segs)
  case Nil
  then show ?case by simp
next
  case (Cons seg segs)
  then show ?case by (cases seg) auto
qed

lemma substitute_Cons:
  "substitute ((key, val) # r) seg = substitute r (substituteKey key val seg)"
  by (cases seg) auto

lemma applyReplacements_render:
  "goodReplacements r \<Longrightarrow> wellFormed segs \<Longrightarrow>
     applyReplacements r (render segs) = render (map (substitute r) segs)"
proof (induction r arbitrary: segs)
  case Nil
  have "substitute [] seg = seg" for seg
    by (cases seg) auto
  then have "map (substitute []) segs = segs"
    by (induction segs) auto
  then show ?case by simp
next
  case (Cons kv r)
  obtain key val where kv: "kv = (key, val)" by (cases kv)
  from Cons.prems kv have g: "braceFree key" "0x24 \<notin> set val" "plainText val" "goodReplacements r"
    by simp_all
  have "applyReplacements (kv # r) (render segs)
      = applyReplacements r (render (map (substituteKey key val) segs))"
    using g(1,2) Cons.prems(2) by (simp add: kv replaceToken_render)
  also have "\<dots> = render (map (substitute r) (map (substituteKey key val) segs))"
    using g(3,4) Cons.prems(2) by (intro Cons.IH wellFormed_substituteKey)
  also have "\<dots> = render (map (substitute (kv # r)) segs)"
    by (simp only: kv map_map o_def substitute_Cons [symmetric])
  finally show ?case .
qed

lemma includes_Nil: "\<not> includes_js [] (placeholder key)"
  by (simp add: placeholder_unfold)

lemma includes_skip:
  "\<not> startsWith (c # s) (placeholder key) \<Longrightarrow>
     includes_js (c # s) (placeholder key) = includes_js s (placeholder key)"
  by simp

lemma includes_no_open:
  "0x7B \<notin> set u \<Longrightarrow> includes_js (u @ rest) (placeholder key) = includes_js rest (placeholder key)"
proof (induction u)
  case Nil
  then show ?case by simp
next
  case (Cons c u)
  have "\<not> startsWith (c # u @ rest) (placeholder key)"
    using Cons.prems startsWith_placeholder_open by fastforce
  then show ?case using Cons by simp
qed

lemma includes_literal:
  "plainText t \<Longrightarrow> includes_js (t @ rest) (placeholder key) = includes_js rest (placeholder key)"
proof (induction t)
  case Nil
  then show ?case by simp
next
  case (Cons c t)
  have "\<not> startsWith (c # t @ rest) (placeholder key)"
    using Cons.prems by (rule plainText_no_match)
  then show ?case using Cons plainText_tail by simp
qed

lemma includes_other:
  assumes "braceFree k" and "braceFree k'" and "k' \<noteq> k"
  shows "includes_js (placeholder k' @ rest) (placeholder k) = includes_js rest (placeholder k)"
proof -
  let ?u = "k' @ [0x7D, 0x7D]"
  have 0: "\<not> startsWith (0x7B # (0x7B # ?u @ rest)) (placeholder k)"
    using key_match [OF assms(1,2), of rest] assms(3) by (auto simp: placeholder_unfold)
  have 1: "\<not> startsWith (0x7B # ?u @ rest) (placeholder k)"
    using second_not_open [OF assms(2)] by simp
  have 2: "0x7B \<notin> set ?u"
    using assms(2) by (simp add: braceFree_def)
  have "includes_js (placeholder k' @ rest) (placeholder k)
      = includes_js (0x7B # (0x7B # ?u @ rest)) (placeholder k)"
    by (simp add: placeholder_unfold)
  also have "\<dots> = includes_js (0x7B # ?u @ rest) (placeholder k)"
    using 0 by (rule includes_skip)
  also have "\<dots> = includes_js (?u @ rest) (placeholder k)"
    using 1 by (rule includes_skip)
  also have "\<dots> = includes_js rest (placeholder k)"
    using 2 by (rule includes_no_open)
  finally show ?thesis .
qed

lemma no_token_in_render:
  assumes "braceFree key"
  shows "wellFormed segs \<Longrightarrow> Token key \<notin> set segs \<Longrightarrow>
     \<not> includes_js (render segs) (placeholder key)"
proof (induction segs)
  case Nil
  show ?case using includes_Nil by simp
next
  case (Cons seg segs)
  show ?case
  proof (cases seg)
    case (Literal t)
    with Cons show ?thesis by (simp add: includes_literal)
  next
    case (Token k)
    with Cons assms have "k \<noteq> key" "braceFree k" "wellFormed segs" "Token key \<notin> set segs"
      by auto
    with Cons.IH assms Token show ?thesis by (simp add: includes_other)
  qed
qed

lemma wellFormed_substitute:
  "goodReplacements r \<Longrightarrow> wellFormed segs \<Longrightarrow> wellFormed (map (substitute r) segs)"
proof (induction r arbitrary: segs)
  case Nil
  have "substitute [] seg = seg" for seg
    by (cases seg) auto
  then have "map (substitute []) segs = segs"
    by (induction segs) auto
  with Nil show ?case by simp
next
  case (Cons kv r)
  obtain key val where kv: "kv = (key, val)" by (cases kv)
  have e: "map (substitute (kv # r)) segs = map (substitute r) (map (substituteKey key val) segs)"
    by (simp only: kv map_map o_def substitute_Cons [symmetric])
  from Cons.prems kv have g: "plainText val" "goodReplacements r"
    by simp_all
  show ?case
    unfolding e using g Cons.prems(2) by (intro Cons.IH wellFormed_substituteKey)
qed

lemma token_after_substitute:
  "Token key \<in> set (map (substitute r) segs) \<Longrightarrow> map_of r key = None"
proof (induction segs)
  case Nil
  then show ?case by simp
next
  case (Cons seg segs)
  then show ?case by (cases seg) (auto split: option.splits)
qed

lemma plainText_no_open: "0x7B \<notin> set val \<Longrightarrow> plainText val"
  by (induction val rule: plainText.induct) auto

lemma toSnakeCase_units: "c \<in> set (toSnakeCase str) \<Longrightarrow> isLowerAlnum c \<or> c = 0x5F"
  by (auto simp: toSnakeCase_def)

lemma toKebabCase_units: "c \<in> set (toKebabCase str) \<Longrightarrow> isLowerAlnum c \<or> c = 0x2D"
  by (auto simp: toKebabCase_def)

lemma derived_forms_plain:
  "0x24 \<notin> set (toSnakeCase str)" "0x7B \<notin> set (toSnakeCase str)"
  "0x24 \<notin> set (toKebabCase str)" "0x7B \<notin> set (toKebabCase str)"
  using toSnakeCase_units [of _ str] toKebabCase_units [of _ str]
  by (fastforce simp: isLowerAlnum_def)+

lemma projectKeys_braceFree:
  "braceFree (js ''projectName'')" "braceFree (js ''projectNameSnake'')"
  "braceFree (js ''projectNameKebab'')"
  by (simp_all add: braceFree_def js_def)

lemma good_projectReplacements:
  "0x24 \<notin> set projectName \<Longrightarrow> plainText projectName \<Longrightarrow>
     goodReplacements (projectReplacements projectName)"
  by (simp add: projectReplacements_def projectKeys_braceFree derived_forms_plain plainText_no_open)

lemma map_of_projectReplacements:
  "map_of (projectReplacements projectName) (js ''projectName'') \<noteq> None"
  "map_of (projectReplacements projectName) (js ''projectNameSnake'') \<noteq> None"
  "map_of (projectReplacements projectName) (js ''projectNameKebab'') \<noteq> None"
  by (simp_all add: projectReplacements_def)

text \<open>The walk over the tree rewrites each file in its place.\<close>

lemma map_of_setEntry: "map_of (setEntry name n es) name = Some n"
  by (induction es) auto

lemma map_of_replaceInEntries:
  "map_of (replaceInEntries r es) name = map_option (replaceInNode r) (map_of es name)"
  by (induction es) auto

lemma replaceInNode_File:
  "\<exists>text. replaceInNode r (File content rd wr) = File text rd wr"
  by (cases rd; cases wr) auto

lemma lookup_replaceInNode:
  "lookup (replaceInNode r n) p = map_option (replaceInNode r) (lookup n p)"
proof (induction p arbitrary: n)
  case Nil
  then show ?case by simp
next
  case (Cons c p)
  show ?case
  proof (cases n)
    case (File content rd wr)
    then show ?thesis
      using replaceInNode_File [of r content rd wr] by auto
  next
    case (Dir es)
    then show ?thesis
      using Cons by (simp add: map_of_replaceInEntries split: option.splits)
  next
    case Other
    then show ?thesis by simp
  qed
qed

lemma lookup_append:
  "lookup fs (d @ p) = (case lookup fs d of None \<Rightarrow> None | Some n \<Rightarrow> lookup n p)"
proof (induction d arbitrary: fs)
  case Nil
  then show ?case by simp
next
  case (Cons c d)
  then show ?case by (auto split: node.splits option.splits)
qed

lemma atPath_replace:
  "lookup fs d = Some old \<Longrightarrow>
     \<exists>fs'. atPath d (\<lambda>cur. Inr new) fs = Inr fs' \<and> lookup fs' (d @ p) = lookup new p"
proof (induction d arbitrary: fs old)
  case Nil
  then show ?case by simp
next
  case (Cons c d)
  from Cons.prems obtain es child where n: "fs = Dir es" and c: "map_of es c = Some child"
    and l: "lookup child d = Some old"
    by (auto split: node.splits option.splits)
  from Cons.IH [OF l] obtain child' where
    a: "atPath d (\<lambda>cur. Inr new) child = Inr child'"
    and b: "lookup child' (d @ p) = lookup new p"
    by blast
  show ?case
  proof (cases d)
    case Nil
    then show ?thesis
      using n c by (simp add: map_of_setEntry)
  next
    case (Cons d1 d')
    then show ?thesis
      using n c a b by (simp add: map_of_setEntry)
  qed
qed

text \<open>
  Claim C3, amended. Let the project name have no dollar sign, no two opening braces in a
  row and no opening brace at its end. Then \<open>replacePlaceholders\<close> succeeds on any
  directory, and in every file below it that may be read and written and whose text is
  a well-formed sequence of literal pieces and tokens, every token with one of the three
  keys is replaced by its value, every other token and every literal piece is left as it
  is, and none of the three placeholders occurs in the new text.
\<close>

theorem placeholder_substitution:
  assumes "0x24 \<notin> set projectName" and "plainText projectName"
    and "lookup fs dirPath = Some (Dir es)"
    and "lookup fs (dirPath @ p) = Some (File (render segs) True True)"
    and "wellFormed segs"
  shows "\<exists>fs'. replacePlaceholders dirPath (projectReplacements projectName) fs = Inr fs'
      \<and> lookup fs' (dirPath @ p) =
          Some (File (render (map (substitute (projectReplacements projectName)) segs)) True True)
      \<and> \<not> includes_js (render (map (substitute (projectReplacements projectName)) segs))
            (placeholder (js ''projectName''))
      \<and> \<not> includes_js (render (map (substitute (projectReplacements projectName)) segs))
            (placeholder (js ''projectNameSnake''))
      \<and> \<not> includes_js (render (map (substitute (projectReplacements projectName)) segs))
            (placeholder (js ''projectNameKebab''))"
proof -
  let ?r = "projectReplacements projectName"
  let ?out = "map (substitute ?r) segs"
  have good: "goodReplacements ?r"
    using assms(1,2) by (rule good_projectReplacements)
  have wf: "wellFormed ?out"
    using good assms(5) by (rule wellFormed_substitute)
  have src: "lookup (Dir es) p = Some (File (render segs) True True)"
    using assms(3,4) by (simp add: lookup_append)
  obtain fs' where run: "atPath dirPath (\<lambda>cur. Inr (Dir (replaceInEntries ?r es))) fs = Inr fs'"
    and look: "lookup fs' (dirPath @ p) = lookup (Dir (replaceInEntries ?r es)) p"
    using atPath_replace [OF assms(3)] by blast
  have "lookup (Dir (replaceInEntries ?r es)) p = lookup (replaceInNode ?r (Dir es)) p"
    by simp
  also have "\<dots> = Some (File (applyReplacements ?r (render segs)) True True)"
    unfolding lookup_replaceInNode src by simp
  also have "applyReplacements ?r (render segs) = render ?out"
    using good assms(5) by (rule applyReplacements_render)
  finally have new: "lookup fs' (dirPath @ p) = Some (File (render ?out) True True)"
    using look by simp
  have ok: "replacePlaceholders dirPath ?r fs = Inr fs'"
    using assms(3) run by (simp add: replacePlaceholders_def)
  have none: "\<not> includes_js (render ?out) (placeholder key)"
    if b: "braceFree key" and m: "map_of ?r key \<noteq> None" for key
  proof -
    have "Token key \<notin> set ?out"
    proof
      assume "Token key \<in> set ?out"
      then have "map_of ?r key = None"
        by (rule token_after_substitute)
      with m show False by simp
    qed
    with b wf show ?thesis
      by (rule no_token_in_render)
  qed
  show ?thesis
    using ok new none [OF projectKeys_braceFree(1) map_of_projectReplacements(1)]
      none [OF projectKeys_braceFree(2) map_of_projectReplacements(2)]
      none [OF projectKeys_braceFree(3) map_of_projectReplacements(3)]
    by blast
qed

text \<open>
  Claim C3, as stated, fails. Each key is replaced in one pass from left to right, and the
  text a pass has produced is not searched again. In the text
  \<open>{{project{{projectName}}}}\<close> the pass for \<open>projectName\<close> finds one placeholder, at
  the ninth character; with the project name \<open>Name\<close> the result is the text
  \<open>{{projectName}}\<close>, which the later passes leave: a recognized token remains in the
  file.
\<close>

theorem placeholder_substitution_counterexample:
  "replacePlaceholders [] (projectReplacements (js ''Name''))
      (Dir [(js ''README.md'', File (js ''{{project{{projectName}}}}'') True True)])
     = Inr (Dir [(js ''README.md'', File (js ''{{projectName}}'') True True)])
   \<and> includes_js (js ''{{projectName}}'') (placeholder (js ''projectName''))"
  by (simp add: replacePlaceholders_def projectReplacements_def replaceToken.simps
      placeholder_def toSnakeCase_def toKebabCase_def js_def)

text \<open>
  A dollar pattern in the project name is expanded by \<open>String.prototype.replace\<close>: the
  valid name \<open>a$&b\<close> puts the placeholder back in place of \<open>$&\<close>.
\<close>

lemma dollar_pattern_example:
  "validateProjectName (js ''a$&b'')
   \<and> applyReplacements (projectReplacements (js ''a$&b'')) (js ''name = {{projectName}}'')
       = js ''name = a{{projectName}}b''"
  by (simp add: validateProjectName_def trim_def isWhiteSpace_def invalidChars_test_def
      invalidChars_def toUpperCase_def upperUnit_def reservedNames_def
      projectReplacements_def replaceToken.simps placeholder_def toSnakeCase_def
      toKebabCase_def js_def)

text \<open>The theorem at a file with two recognized tokens, one other token and a single brace pair.\<close>

theorem placeholder_substitution_witness:
  "0x24 \<notin> set (js ''MyApp'') \<and> plainText (js ''MyApp'')
   \<and> wellFormed [Literal (js ''# ''), Token (js ''projectName''), Literal (js '' {x} ''),
        Token (js ''projectNameSnake''), Literal (js '' ''), Token (js ''other'')]
   \<and> render [Literal (js ''# ''), Token (js ''projectName''), Literal (js '' {x} ''),
        Token (js ''projectNameSnake''), Literal (js '' ''), Token (js ''other'')]
       = js ''# {{projectName}} {x} {{projectNameSnake}} {{other}}''
   \<and> (\<exists>fs'. replacePlaceholders [js ''demo''] (projectReplacements (js ''MyApp''))
            (Dir [(js ''demo'', Dir [(js ''README.md'',
               File (js ''# {{projectName}} {x} {{projectNameSnake}} {{other}}'') True True)])])
          = Inr fs'
        \<and> lookup fs' [js ''demo'', js ''README.md'']
          = Some (File (js ''# MyApp {x} my_app {{other}}'') True True))
   \<and> \<not> includes_js (js ''# MyApp {x} my_app {{other}}'') (placeholder (js ''projectName''))"
proof -
  let ?segs = "[Literal (js ''# ''), Token (js ''projectName''), Literal (js '' {x} ''),
        Token (js ''projectNameSnake''), Literal (js '' ''), Token (js ''other'')]"
  let ?fs = "Dir [(js ''demo'', Dir [(js ''README.md'', File (render ?segs) True True)])]"
  have 1: "0x24 \<notin> set (js ''MyApp'')" and 2: "plainText (js ''MyApp'')"
    by (simp_all add: js_def)
  have 3: "lookup ?fs [js ''demo''] = Some (Dir [(js ''README.md'', File (render ?segs) True True)])"
    by simp
  have 4: "lookup ?fs ([js ''demo''] @ [js ''README.md'']) = Some (File (render ?segs) True True)"
    by simp
  have 5: "wellFormed ?segs"
    by (simp add: braceFree_def js_def)
  have r: "render ?segs = js ''# {{projectName}} {x} {{projectNameSnake}} {{other}}''"
    by (simp add: placeholder_def js_def)
  have out: "render (map (substitute (projectReplacements (js ''MyApp''))) ?segs)
      = js ''# MyApp {x} my_app {{other}}''"
    by (simp add: projectReplacements_def placeholder_def toSnakeCase_def separateCapitals_def
        isUpperAZ_def isLowerAlnum_def toLowerCase_def lowerUnits_def lowerUnit_def
        dropLeading_def js_def)
  from placeholder_substitution [OF 1 2 3 4 5] obtain fs' where
    a: "replacePlaceholders [js ''demo''] (projectReplacements (js ''MyApp'')) ?fs = Inr fs'"
    and b: "lookup fs' ([js ''demo''] @ [js ''README.md''])
        = Some (File (render (map (substitute (projectReplacements (js ''MyApp''))) ?segs)) True True)"
    and c: "\<not> includes_js (render (map (substitute (projectReplacements (js ''MyApp''))) ?segs))
        (placeholder (js ''projectName''))"
    by blast
  have "\<exists>fs'. replacePlaceholders [js ''demo''] (projectReplacements (js ''MyApp''))
            (Dir [(js ''demo'', Dir [(js ''README.md'',
               File (js ''# {{projectName}} {x} {{projectNameSnake}} {{other}}'') True True)])])
          = Inr fs'
        \<and> lookup fs' [js ''demo'', js ''README.md'']
          = Some (File (js ''# MyApp {x} my_app {{other}}'') True True)"
    using a b unfolding out r append.simps by (intro exI [of _ fs'] conjI)
  then show ?thesis
    using 1 2 5 r c unfolding out by (intro conjI)
qed

section \<open>The file system: what a successful operation keeps\<close>

text \<open>
  No operation that succeeds removes a path: what \<open>fs.pathExists\<close> finds before, it
  finds afterwards, and the path a write addresses exists once the write has succeeded.
\<close>

lemma map_of_setEntry_upd: "map_of (setEntry name n es) = (map_of es)(name \<mapsto> n)"
  by (induction es) (auto simp: fun_eq_iff)

lemma lookup_setEntry:
  "lookup (Dir (setEntry c n es)) (x # q) = (if x = c then lookup n q else lookup (Dir es) (x # q))"
  by (simp add: map_of_setEntry_upd)

lemma lookup_child:
  "map_of es c = Some child \<Longrightarrow> lookup (Dir es) (c # q) = lookup child q"
  by simp

lemma atPath_keeps:
  assumes "atPath p f fs = Inr fs'"
    and "\<And>n' n q. f (lookup fs p) = Inr n' \<Longrightarrow> lookup fs p = Some n \<Longrightarrow> lookup n q \<noteq> None
           \<Longrightarrow> lookup n' q \<noteq> None"
  shows "lookup fs' p \<noteq> None \<and> (\<forall>q. lookup fs q \<noteq> None \<longrightarrow> lookup fs' q \<noteq> None)"
  using assms
proof (induction p f fs arbitrary: fs' rule: atPath.induct)
  case (1 f n)
  then show ?case by simp
next
  case (2 c f n)
  from 2(1) obtain es n' where n: "n = Dir es" and f: "f (map_of es c) = Inr n'"
    and fs': "fs' = Dir (setEntry c n' es)"
    by (auto split: node.splits sum.splits)
  have l: "lookup n [c] = map_of es c"
    by (simp add: n split: option.splits)
  have k: "lookup m q \<noteq> None \<Longrightarrow> lookup n' q \<noteq> None" if "map_of es c = Some m" for m q
    using 2(2) [of n' m q] f that l by simp
  have "lookup fs' (x # q) \<noteq> None" if "lookup n (x # q) \<noteq> None" for x q
  proof (cases "x = c")
    case True
    with that obtain m where m: "map_of es c = Some m" and "lookup m q \<noteq> None"
      by (auto simp: n split: option.splits)
    then show ?thesis
      unfolding fs' lookup_setEntry using k True by simp
  next
    case False
    then show ?thesis
      unfolding fs' lookup_setEntry using that n by simp
  qed
  moreover have "lookup fs' [c] \<noteq> None"
    unfolding fs' lookup_setEntry by simp
  moreover have "lookup fs' [] \<noteq> None"
    by simp
  ultimately show ?case
    by (metis list.exhaust)
next
  case (3 c d p f n)
  from 3(2) obtain es child n' where n: "n = Dir es" and c: "map_of es c = Some child"
    and a: "atPath (d # p) f child = Inr n'" and fs': "fs' = Dir (setEntry c n' es)"
    by (auto split: node.splits sum.splits option.splits)
  have l: "lookup n (c # d # p) = lookup child (d # p)"
    using c n by simp
  have ih: "lookup n' (d # p) \<noteq> None \<and> (\<forall>q. lookup child q \<noteq> None \<longrightarrow> lookup n' q \<noteq> None)"
    using 3(1) [OF n c a] 3(3) unfolding l by blast
  have "lookup fs' (x # q) \<noteq> None" if "lookup n (x # q) \<noteq> None" for x q
  proof (cases "x = c")
    case True
    with that have "lookup child q \<noteq> None"
      using c n by simp
    then show ?thesis
      unfolding fs' lookup_setEntry using ih True by simp
  next
    case False
    then show ?thesis
      unfolding fs' lookup_setEntry using that n by simp
  qed
  moreover have "lookup fs' (c # d # p) \<noteq> None"
    unfolding fs' lookup_setEntry using ih by simp
  moreover have "lookup fs' [] \<noteq> None"
    by simp
  ultimately show ?case
    by (metis list.exhaust)
qed


lemma ensureDir_keeps:
  "ensureDir p fs = Inr fs' \<Longrightarrow>
     lookup fs' p \<noteq> None \<and> (\<forall>q. lookup fs q \<noteq> None \<longrightarrow> lookup fs' q \<noteq> None)"
proof (induction p arbitrary: fs fs')
  case Nil
  then show ?case by (simp split: node.splits)
next
  case (Cons c p)
  define child where "child = (case fs of Dir es \<Rightarrow>
     (case map_of es c of None \<Rightarrow> Dir [] | Some child \<Rightarrow> child) | _ \<Rightarrow> Other)"
  from Cons(2) obtain es n' where n: "fs = Dir es" and a: "ensureDir p child = Inr n'"
    and fs': "fs' = Dir (setEntry c n' es)"
    by (auto simp: child_def split: node.splits sum.splits)
  have ih: "lookup n' p \<noteq> None \<and> (\<forall>q. lookup child q \<noteq> None \<longrightarrow> lookup n' q \<noteq> None)"
    using Cons(1) [OF a] .
  have "lookup fs' (x # q) \<noteq> None" if "lookup fs (x # q) \<noteq> None" for x q
  proof (cases "x = c")
    case True
    with that have "lookup child q \<noteq> None"
      by (auto simp: n child_def split: option.splits)
    then show ?thesis
      unfolding fs' lookup_setEntry using ih True by simp
  next
    case False
    then show ?thesis
      unfolding fs' lookup_setEntry using that n by simp
  qed
  moreover have "lookup fs' (c # p) \<noteq> None"
    unfolding fs' lookup_setEntry using ih by simp
  moreover have "lookup fs' [] \<noteq> None"
    by simp
  ultimately show ?case
    by (metis list.exhaust)
qed

lemma lookup_File: "lookup (File content r w) q \<noteq> None \<longleftrightarrow> q = []"
  by (cases q) simp_all

lemma lookup_Other: "lookup Other q \<noteq> None \<longleftrightarrow> q = []"
  by (cases q) simp_all

lemma writeFile_keeps:
  assumes "writeFile p content fs = Inr fs'"
  shows "lookup fs' p \<noteq> None \<and> (\<forall>q. lookup fs q \<noteq> None \<longrightarrow> lookup fs' q \<noteq> None)"
proof (rule atPath_keeps)
  show "atPath p (writeNode content) fs = Inr fs'"
    using assms by (simp add: writeFile_def)
next
  fix n' n q
  assume "writeNode content (lookup fs p) = Inr n'" "lookup fs p = Some n" "lookup n q \<noteq> None"
  then show "lookup n' q \<noteq> None"
    by (cases n) (auto simp: lookup_File simp del: not_None_eq split: if_splits)
qed

lemma appendFile_keeps:
  assumes "appendFile p content fs = Inr fs'"
  shows "lookup fs' p \<noteq> None \<and> (\<forall>q. lookup fs q \<noteq> None \<longrightarrow> lookup fs' q \<noteq> None)"
proof (rule atPath_keeps)
  show "atPath p (appendNode content) fs = Inr fs'"
    using assms by (simp add: appendFile_def)
next
  fix n' n q
  assume "appendNode content (lookup fs p) = Inr n'" "lookup fs p = Some n" "lookup n q \<noteq> None"
  then show "lookup n' q \<noteq> None"
    by (cases n) (auto simp: lookup_File simp del: not_None_eq split: if_splits)
qed

lemma generateFormatterConfig_keeps:
  assumes "generateFormatterConfig targetPath blackSection fs = Inr fs'"
  shows "lookup fs' (targetPath @ [js ''pyproject.toml'']) \<noteq> None
     \<and> (\<forall>q. lookup fs q \<noteq> None \<longrightarrow> lookup fs' q \<noteq> None)"
proof (cases "lookup fs (targetPath @ [js ''pyproject.toml'']) = None")
  case True
  have "\<not> includes_js [] (js ''[tool.black]'')"
    by (simp add: js_def)
  then have "appendFile (targetPath @ [js ''pyproject.toml'']) blackSection fs = Inr fs'"
    using assms True by (simp add: generateFormatterConfig_def pathExists_def)
  then show ?thesis
    by (rule appendFile_keeps)
next
  case False
  then have "fs' = fs \<or> appendFile (targetPath @ [js ''pyproject.toml'']) blackSection fs = Inr fs'"
    using assms
    by (auto simp: generateFormatterConfig_def pathExists_def Let_def split: sum.splits if_splits)
  then show ?thesis
    using False appendFile_keeps by blast
qed

lemma replacePlaceholders_keeps:
  assumes "replacePlaceholders dirPath r fs = Inr fs'"
  shows "\<forall>q. lookup fs q \<noteq> None \<longrightarrow> lookup fs' q \<noteq> None"
proof -
  from assms obtain es where es: "lookup fs dirPath = Some (Dir es)"
    and a: "atPath dirPath (\<lambda>cur. Inr (Dir (replaceInEntries r es))) fs = Inr fs'"
    by (auto simp: replacePlaceholders_def split: option.splits node.splits)
  have "lookup (Dir (replaceInEntries r es)) q \<noteq> None" if "lookup (Dir es) q \<noteq> None" for q
    using that lookup_replaceInNode [of r "Dir es" q] by simp
  then have "lookup n' q \<noteq> None"
    if "(\<lambda>cur. Inr (Dir (replaceInEntries r es))) (lookup fs dirPath) = Inr n'"
      "lookup fs dirPath = Some n" "lookup n q \<noteq> None" for n' n q
    using that es by (simp del: not_None_eq)
  with a have "lookup fs' dirPath \<noteq> None \<and> (\<forall>q. lookup fs q \<noteq> None \<longrightarrow> lookup fs' q \<noteq> None)"
    by (rule atPath_keeps)
  then show ?thesis
    by (rule conjunct2)
qed


lemma kindError_file:
  "kindError src dest n (Some m) = None \<Longrightarrow> \<not> isDirectory n \<Longrightarrow> lookup m q \<noteq> None \<Longrightarrow> q = []"
  by (cases m; cases q) (simp_all add: kindError_def)

lemma kindError_dir:
  "kindError src dest (Dir es) (Some m) = None \<Longrightarrow> \<exists>ds. m = Dir ds"
  by (cases m) (simp_all add: kindError_def)

lemma setEntry_keeps:
  assumes "\<And>m q. map_of ds name = Some m \<Longrightarrow> lookup m q \<noteq> None \<Longrightarrow> lookup n q \<noteq> None"
    and "lookup (Dir ds) q \<noteq> None"
  shows "lookup (Dir (setEntry name n ds)) q \<noteq> None"
proof (cases q)
  case Nil
  then show ?thesis by simp
next
  case (Cons x r)
  show ?thesis
  proof (cases "x = name")
    case True
    with assms(2) Cons obtain m where "map_of ds name = Some m" "lookup m r \<noteq> None"
      by (auto split: option.splits)
    then have "lookup n r \<noteq> None"
      by (rule assms(1))
    then show ?thesis
      unfolding Cons lookup_setEntry using True by simp
  next
    case False
    then show ?thesis
      unfolding Cons lookup_setEntry using assms(2) Cons by simp
  qed
qed

lemma copyNode_keeps:
  "copyNode filt src dest n cur = (None, cur') \<Longrightarrow>
     \<exists>n'. cur' = Some n' \<and> (\<forall>m q. cur = Some m \<longrightarrow> lookup m q \<noteq> None \<longrightarrow> lookup n' q \<noteq> None)"
  and copyEntries_keeps:
  "copyEntries filt src dest es ds = (None, ds') \<Longrightarrow>
     \<forall>q. lookup (Dir ds) q \<noteq> None \<longrightarrow> lookup (Dir ds') q \<noteq> None"
proof (induction filt src dest n cur and filt src dest es ds arbitrary: cur' and ds'
    rule: copyNode_copyEntries.induct)
  case (1 filt src dest content r w cur)
  then have k: "kindError src dest (File content r w) cur = None" and c: "cur' = Some (File content r w)"
    by (auto split: option.splits if_splits)
  have "lookup (File content r w) q \<noteq> None" if "cur = Some m" "lookup m q \<noteq> None" for m q
    using kindError_file [of src dest "File content r w" m q] k that by simp
  with c show ?case by blast
next
  case (2 filt src dest es cur)
  define ds where "ds = (case cur of Some (Dir ds) \<Rightarrow> ds | _ \<Rightarrow> [])"
  from 2(2) obtain ds' where k: "kindError src dest (Dir es) cur = None"
    and e: "copyEntries filt src dest es ds = (None, ds')" and c: "cur' = Some (Dir ds')"
    by (auto simp: ds_def split: option.splits prod.splits)
  have ih: "\<forall>q. lookup (Dir ds) q \<noteq> None \<longrightarrow> lookup (Dir ds') q \<noteq> None"
    using 2(1) [OF k] e unfolding ds_def by blast
  have "lookup (Dir ds') q \<noteq> None" if "cur = Some m" "lookup m q \<noteq> None" for m q
  proof -
    from k that(1) obtain ds0 where "m = Dir ds0"
      using kindError_dir by blast
    with that ih show ?thesis
      by (simp add: ds_def del: not_None_eq)
  qed
  with c show ?case by blast
next
  case (3 filt src dest cur)
  then show ?case by (simp split: option.splits)
next
  case (4 filt src dest ds)
  then show ?case by simp
next
  case (5 filt src dest name n es ds)
  show ?case
  proof (cases "filt (pathJoin src name)")
    case False
    with 5(3,4) show ?thesis by (simp del: not_None_eq)
  next
    case True
    from 5(4) True obtain cur1 where
      c: "copyNode filt (pathJoin src name) (pathJoin dest name) n (map_of ds name) = (None, cur1)"
      and e: "copyEntries filt src dest es (putEntry name cur1 ds) = (None, ds')"
      by (auto split: prod.splits option.splits)
    from 5(1) [OF True c] obtain n1 where n1: "cur1 = Some n1"
      and k: "\<And>m q. map_of ds name = Some m \<Longrightarrow> lookup m q \<noteq> None \<Longrightarrow> lookup n1 q \<noteq> None"
      by blast
    have ih: "\<forall>q. lookup (Dir (setEntry name n1 ds)) q \<noteq> None \<longrightarrow> lookup (Dir ds') q \<noteq> None"
      using 5(2) [OF True c [symmetric] refl] e n1 by simp
    have "lookup (Dir (setEntry name n1 ds)) q \<noteq> None" if "lookup (Dir ds) q \<noteq> None" for q
      using k that by (rule setEntry_keeps)
    with ih show ?thesis by blast
  qed
qed


lemma atPathPut_keeps:
  assumes "atPathPut p f fs = (None, fs')"
    and "\<And>cur'. f (lookup fs p) = (None, cur') \<Longrightarrow>
           \<exists>n'. cur' = Some n'
             \<and> (\<forall>m q. lookup fs p = Some m \<longrightarrow> lookup m q \<noteq> None \<longrightarrow> lookup n' q \<noteq> None)"
  shows "\<forall>q. lookup fs q \<noteq> None \<longrightarrow> lookup fs' q \<noteq> None"
  using assms
proof (induction p f fs arbitrary: fs' rule: atPathPut.induct)
  case (1 f n)
  from 1(1) obtain cur' where f: "f (Some n) = (None, cur')"
    by (auto split: prod.splits option.splits)
  from 1(2) [of cur'] f obtain n' where "cur' = Some n'"
    and k: "\<forall>q. lookup n q \<noteq> None \<longrightarrow> lookup n' q \<noteq> None"
    by auto
  with 1(1) f show ?case by simp
next
  case (2 c f n)
  from 2(1) obtain es cur' where n: "n = Dir es" and f: "f (map_of es c) = (None, cur')"
    and fs': "fs' = Dir (putEntry c cur' es)"
    by (auto split: node.splits prod.splits)
  have l: "lookup n [c] = map_of es c"
    by (simp add: n split: option.splits)
  from 2(2) [of cur'] f l obtain n' where c: "cur' = Some n'"
    and k: "\<And>m q. map_of es c = Some m \<Longrightarrow> lookup m q \<noteq> None \<Longrightarrow> lookup n' q \<noteq> None"
    by auto
  have "lookup (Dir (setEntry c n' es)) q \<noteq> None" if "lookup (Dir es) q \<noteq> None" for q
    using k that by (rule setEntry_keeps)
  then show ?case
    unfolding fs' c n by simp
next
  case (3 c d p f n)
  from 3(2) obtain es child child' where n: "n = Dir es" and c: "map_of es c = Some child"
    and a: "atPathPut (d # p) f child = (None, child')" and fs': "fs' = Dir (setEntry c child' es)"
    by (auto split: node.splits prod.splits option.splits)
  have l: "lookup n (c # d # p) = lookup child (d # p)"
    using c n by simp
  have ih: "\<forall>q. lookup child q \<noteq> None \<longrightarrow> lookup child' q \<noteq> None"
    using 3(1) [OF n c a] 3(3) unfolding l by blast
  have "lookup (Dir (setEntry c child' es)) q \<noteq> None" if "lookup (Dir es) q \<noteq> None" for q
  proof (rule setEntry_keeps)
    show "lookup (Dir es) q \<noteq> None" by (rule that)
  next
    fix m r
    assume "map_of es c = Some m" "lookup m r \<noteq> None"
    with c ih show "lookup child' r \<noteq> None" by simp
  qed
  then show ?case
    unfolding fs' n by simp
qed

lemma copy_keeps:
  assumes "copy filt src dest fs = (None, fs')"
  shows "\<forall>q. lookup fs q \<noteq> None \<longrightarrow> lookup fs' q \<noteq> None"
proof (cases "fs' = fs")
  case True
  then show ?thesis by simp
next
  case False
  with assms obtain srcNode fs1 where e: "fs1 = fs \<or> ensureDir (butlast dest) fs = Inr fs1"
    and a: "atPathPut dest (copyNode filt (pathString src) (pathString dest) srcNode) fs1 = (None, fs')"
    by (auto simp: copy_def split: option.splits if_splits sum.splits)
  have 1: "\<forall>q. lookup fs q \<noteq> None \<longrightarrow> lookup fs1 q \<noteq> None"
    using e ensureDir_keeps [of "butlast dest" fs fs1] by blast
  have 2: "\<forall>q. lookup fs1 q \<noteq> None \<longrightarrow> lookup fs' q \<noteq> None"
    using a by (rule atPathPut_keeps) (rule copyNode_keeps)
  from 1 2 show ?thesis by blast
qed

lemma perform_keeps:
  assumes "perform a fs = (None, fs')"
  shows "(\<forall>p\<in>set (writeTargets a). pathExists fs' p) \<and> (\<forall>q. pathExists fs q \<longrightarrow> pathExists fs' q)"
proof (cases a)
  case (EnsureDir p)
  with assms have "ensureDir p fs = Inr fs'"
    by (cases "ensureDir p fs") simp_all
  then show ?thesis
    using ensureDir_keeps EnsureDir by (simp add: pathExists_def del: not_None_eq)
next
  case (WriteFile p content)
  with assms have "writeFile p content fs = Inr fs'"
    by (cases "writeFile p content fs") simp_all
  then show ?thesis
    using writeFile_keeps WriteFile by (simp add: pathExists_def del: not_None_eq)
next
  case (FormatterConfig targetPath blackSection)
  with assms have "generateFormatterConfig targetPath blackSection fs = Inr fs'"
    by (cases "generateFormatterConfig targetPath blackSection fs") simp_all
  then show ?thesis
    using generateFormatterConfig_keeps FormatterConfig by (simp add: pathExists_def del: not_None_eq)
next
  case (CopyTemplate sourcePath targetPath)
  with assms have "copy copyFilter sourcePath targetPath fs = (None, fs')"
    by (simp add: copyTemplate_def)
  then show ?thesis
    using copy_keeps CopyTemplate by (simp add: pathExists_def del: not_None_eq)
next
  case (ReplacePlaceholders dirPath r)
  with assms have "replacePlaceholders dirPath r fs = Inr fs'"
    by (cases "replacePlaceholders dirPath r fs") simp_all
  then show ?thesis
    using replacePlaceholders_keeps ReplacePlaceholders by (simp add: pathExists_def del: not_None_eq)
qed

lemma run_keeps:
  "run actions fs = (None, fs') \<Longrightarrow> pathExists fs q \<Longrightarrow> pathExists fs' q"
proof (induction actions arbitrary: fs)
  case Nil
  then show ?case by simp
next
  case (Cons a actions)
  from Cons(2) obtain fs1 where p: "perform a fs = (None, fs1)" and r: "run actions fs1 = (None, fs')"
    by (auto split: prod.splits option.splits)
  from perform_keeps [OF p] Cons(3) have "pathExists fs1 q" by blast
  with r show ?case by (rule Cons(1))
qed

lemma run_writes:
  "run actions fs = (None, fs') \<Longrightarrow> p \<in> writtenFiles actions \<Longrightarrow> pathExists fs' p"
proof (induction actions arbitrary: fs)
  case Nil
  then show ?case by (simp add: writtenFiles_def)
next
  case (Cons a actions)
  from Cons(2) obtain fs1 where p: "perform a fs = (None, fs1)" and r: "run actions fs1 = (None, fs')"
    by (auto split: prod.splits option.splits)
  from Cons(3) consider "p \<in> set (writeTargets a)" | "p \<in> writtenFiles actions"
    by (auto simp: writtenFiles_def)
  then show ?case
  proof cases
    case 1
    with perform_keeps [OF p] have "pathExists fs1 p" by blast
    with r show ?thesis by (rule run_keeps)
  next
    case 2
    with r show ?thesis by (rule Cons(1))
  qed
qed

text \<open>
  Nor does a successful operation change a file it does not address: a write to another
  path, a new directory, and a substitution pass over a text without placeholders leave
  the file with its text and its permissions.
\<close>

lemma atPath_file:
  "atPath p f fs = Inr fs' \<Longrightarrow> lookup fs q = Some (File c r w) \<Longrightarrow> \<not> prefix p q \<Longrightarrow>
     lookup fs' q = Some (File c r w)"
proof (induction p f fs arbitrary: fs' q rule: atPath.induct)
  case (1 f n)
  then show ?case by simp
next
  case (2 k f n)
  from 2(1) obtain es n' where n: "n = Dir es" and fs': "fs' = Dir (setEntry k n' es)"
    by (auto split: node.splits sum.splits)
  from 2(2) n obtain x s where q: "q = x # s"
    by (cases q) auto
  with 2(3) have "x \<noteq> k" by simp
  then show ?case
    unfolding fs' q lookup_setEntry using 2(2) n q by simp
next
  case (3 k d p f n)
  from 3(2) obtain es child n' where n: "n = Dir es" and k: "map_of es k = Some child"
    and a: "atPath (d # p) f child = Inr n'" and fs': "fs' = Dir (setEntry k n' es)"
    by (auto split: node.splits sum.splits option.splits)
  from 3(3) n obtain x s where q: "q = x # s"
    by (cases q) auto
  show ?case
  proof (cases "x = k")
    case True
    with 3(3,4) q n k have "lookup child s = Some (File c r w)" "\<not> prefix (d # p) s"
      by simp_all
    with 3(1) [OF n k a] have "lookup n' s = Some (File c r w)" by blast
    then show ?thesis
      unfolding fs' q lookup_setEntry using True by simp
  next
    case False
    then show ?thesis
      unfolding fs' q lookup_setEntry using 3(3) n q by simp
  qed
qed

lemma atPath_applied:
  "atPath p f fs = Inr fs' \<Longrightarrow>
     \<exists>n'. f (lookup fs p) = Inr n' \<and> (\<forall>s. lookup fs' (p @ s) = lookup n' s)"
proof (induction p f fs arbitrary: fs' rule: atPath.induct)
  case (1 f n)
  then show ?case by simp
next
  case (2 k f n)
  from 2(1) obtain es n' where n: "n = Dir es" and f: "f (map_of es k) = Inr n'"
    and fs': "fs' = Dir (setEntry k n' es)"
    by (auto split: node.splits sum.splits)
  have "lookup n [k] = map_of es k"
    by (simp add: n split: option.splits)
  with f show ?case
    unfolding fs' by (simp add: map_of_setEntry)
next
  case (3 k d p f n)
  from 3(2) obtain es child n' where n: "n = Dir es" and k: "map_of es k = Some child"
    and a: "atPath (d # p) f child = Inr n'" and fs': "fs' = Dir (setEntry k n' es)"
    by (auto split: node.splits sum.splits option.splits)
  from 3(1) [OF n k a] show ?case
    unfolding fs' using n k by (simp add: map_of_setEntry)
qed

lemma below_file:
  "lookup fs (p @ s) = Some (File c r w) \<Longrightarrow> s \<noteq> [] \<Longrightarrow> \<exists>es. lookup fs p = Some (Dir es)"
  unfolding lookup_append
  by (cases s; cases "lookup fs p") (auto split: node.splits)

lemma writeFile_file:
  assumes "writeFile p content fs = Inr fs'" and "lookup fs q = Some (File c r w)" and "p \<noteq> q"
  shows "lookup fs' q = Some (File c r w)"
proof (cases "prefix p q")
  case False
  with assms(1) [unfolded writeFile_def] assms(2) show ?thesis
    by (rule atPath_file)
next
  case True
  then obtain s where q: "q = p @ s" and "s \<noteq> []"
    using assms(3) by (auto simp: prefix_def)
  with assms(2) obtain es where "lookup fs p = Some (Dir es)"
    using below_file by blast
  moreover obtain n' where "writeNode content (lookup fs p) = Inr n'"
    using atPath_applied assms(1) unfolding writeFile_def by blast
  ultimately show ?thesis by simp
qed

lemma appendFile_file:
  assumes "appendFile p content fs = Inr fs'" and "lookup fs q = Some (File c r w)" and "p \<noteq> q"
  shows "lookup fs' q = Some (File c r w)"
proof (cases "prefix p q")
  case False
  with assms(1) [unfolded appendFile_def] assms(2) show ?thesis
    by (rule atPath_file)
next
  case True
  then obtain s where q: "q = p @ s" and "s \<noteq> []"
    using assms(3) by (auto simp: prefix_def)
  with assms(2) obtain es where "lookup fs p = Some (Dir es)"
    using below_file by blast
  moreover obtain n' where "appendNode content (lookup fs p) = Inr n'"
    using atPath_applied assms(1) unfolding appendFile_def by blast
  ultimately show ?thesis by simp
qed

lemma writeFile_content:
  assumes "writeFile p content fs = Inr fs'"
  shows "\<exists>r w. lookup fs' p = Some (File content r w)"
proof -
  obtain n' where n': "writeNode content (lookup fs p) = Inr n'" and l: "lookup fs' (p @ []) = lookup n' []"
    using atPath_applied assms unfolding writeFile_def by blast
  from n' obtain r w where "n' = File content r w"
    by (cases "(content, lookup fs p)" rule: writeNode.cases) (auto split: if_splits)
  with l show ?thesis by simp
qed


lemma ensureDir_file:
  "ensureDir p fs = Inr fs' \<Longrightarrow> lookup fs q = Some (File c r w) \<Longrightarrow>
     lookup fs' q = Some (File c r w)"
proof (induction p arbitrary: fs fs' q)
  case Nil
  then show ?case by (simp split: node.splits)
next
  case (Cons k p)
  define child where "child = (case fs of Dir es \<Rightarrow>
     (case map_of es k of None \<Rightarrow> Dir [] | Some child \<Rightarrow> child) | _ \<Rightarrow> Other)"
  from Cons(2) obtain es n' where n: "fs = Dir es" and a: "ensureDir p child = Inr n'"
    and fs': "fs' = Dir (setEntry k n' es)"
    by (auto simp: child_def split: node.splits sum.splits)
  from Cons(3) n obtain x s where q: "q = x # s"
    by (cases q) auto
  show ?case
  proof (cases "x = k")
    case True
    with Cons(3) q n have "lookup child s = Some (File c r w)"
      by (auto simp: child_def split: option.splits)
    with a have "lookup n' s = Some (File c r w)"
      by (rule Cons(1))
    then show ?thesis
      unfolding fs' q lookup_setEntry using True by simp
  next
    case False
    then show ?thesis
      unfolding fs' q lookup_setEntry using Cons(3) n q by simp
  qed
qed

lemma generateFormatterConfig_file:
  assumes "generateFormatterConfig targetPath blackSection fs = Inr fs'"
    and "lookup fs q = Some (File c r w)" and "targetPath @ [js ''pyproject.toml''] \<noteq> q"
  shows "lookup fs' q = Some (File c r w)"
proof -
  have "fs' = fs \<or> appendFile (targetPath @ [js ''pyproject.toml'']) blackSection fs = Inr fs'"
    using assms(1)
    by (auto simp: generateFormatterConfig_def Let_def split: sum.splits if_splits)
  then show ?thesis
    using assms(2,3) appendFile_file by blast
qed

lemma replaceInNode_unchanged:
  "applyReplacements rp c = c \<Longrightarrow> replaceInNode rp (File c r w) = File c r w"
  by (cases r; cases w) simp_all

lemma replacePlaceholders_file:
  assumes "replacePlaceholders d rp fs = Inr fs'" and "lookup fs q = Some (File c r w)"
    and "applyReplacements rp c = c"
  shows "lookup fs' q = Some (File c r w)"
proof -
  from assms(1) obtain es where es: "lookup fs d = Some (Dir es)"
    and a: "atPath d (\<lambda>cur. Inr (Dir (replaceInEntries rp es))) fs = Inr fs'"
    by (auto simp: replacePlaceholders_def split: option.splits node.splits)
  show ?thesis
  proof (cases "prefix d q")
    case False
    with a assms(2) show ?thesis
      by (rule atPath_file)
  next
    case True
    then obtain s where q: "q = d @ s"
      by (auto simp: prefix_def)
    have "lookup fs' (d @ s) = lookup (replaceInNode rp (Dir es)) s"
      using atPath_applied [OF a] by simp
    also have "\<dots> = map_option (replaceInNode rp) (lookup (Dir es) s)"
      by (rule lookup_replaceInNode)
    also have "lookup (Dir es) s = Some (File c r w)"
      using assms(2) es unfolding q lookup_append by simp
    finally show ?thesis
      unfolding q using assms(3) by (simp add: replaceInNode_unchanged)
  qed
qed

lemma perform_file:
  assumes "perform a fs = (None, fs')" and "lookup fs q = Some (File c r w)"
    and "leaves q a" and "\<And>rp. applyReplacements rp c = c"
  shows "lookup fs' q = Some (File c r w)"
proof (cases a)
  case (EnsureDir p)
  with assms(1) have "ensureDir p fs = Inr fs'"
    by (cases "ensureDir p fs") simp_all
  then show ?thesis
    using assms(2) by (rule ensureDir_file)
next
  case (WriteFile p content)
  with assms(1) have "writeFile p content fs = Inr fs'"
    by (cases "writeFile p content fs") simp_all
  moreover note assms(2)
  moreover have "p \<noteq> q"
    using assms(3) WriteFile by simp
  ultimately show ?thesis
    by (rule writeFile_file)
next
  case (FormatterConfig targetPath blackSection)
  with assms(1) have "generateFormatterConfig targetPath blackSection fs = Inr fs'"
    by (cases "generateFormatterConfig targetPath blackSection fs") simp_all
  moreover note assms(2)
  moreover have "targetPath @ [js ''pyproject.toml''] \<noteq> q"
    using assms(3) FormatterConfig by auto
  ultimately show ?thesis
    by (rule generateFormatterConfig_file)
next
  case (CopyTemplate sourcePath targetPath)
  with assms(3) show ?thesis by simp
next
  case (ReplacePlaceholders dirPath rp)
  with assms(1) have "replacePlaceholders dirPath rp fs = Inr fs'"
    by (cases "replacePlaceholders dirPath rp fs") simp_all
  then show ?thesis
    using assms(2,4) by (rule replacePlaceholders_file)
qed

lemma run_file:
  assumes "\<And>rp. applyReplacements rp c = c"
  shows "run actions fs = (None, fs') \<Longrightarrow> lookup fs q = Some (File c r w) \<Longrightarrow>
     list_all (leaves q) actions \<Longrightarrow> lookup fs' q = Some (File c r w)"
proof (induction actions arbitrary: fs)
  case Nil
  then show ?case by simp
next
  case (Cons a actions)
  from Cons(2) obtain fs1 where p: "perform a fs = (None, fs1)" and r: "run actions fs1 = (None, fs')"
    by (auto split: prod.splits option.splits)
  from Cons(4) have l: "leaves q a" and ls: "list_all (leaves q) actions"
    by simp_all
  have "lookup fs1 q = Some (File c r w)"
    using p Cons(3) l assms by (rule perform_file)
  with r show ?case
    using ls by (rule Cons(1))
qed


text \<open>
  A copy that fails leaves what it has copied: the second file of the directory may not
  be read, so the copy ends with \<open>EACCES\<close>, and the first file stands in the new
  directory.
\<close>

lemma failed_copy_leaves_entries:
  "copy (\<lambda>p. True) [js ''t''] [js ''d'']
      (Dir [(js ''t'', Dir [(js ''a'', File (js ''x'') True True),
                           (js ''b'', File (js ''y'') False True),
                           (js ''c'', File (js ''z'') True True)])])
     = (Some EACCES,
        Dir [(js ''t'', Dir [(js ''a'', File (js ''x'') True True),
                            (js ''b'', File (js ''y'') False True),
                            (js ''c'', File (js ''z'') True True)]),
             (js ''d'', Dir [(js ''a'', File (js ''x'') True True)])])"
  by (simp add: copy_def checkPaths_def kindError_def pathString_def pathJoin_def pathExists_def
      js_def)

section \<open>The dependency manifest: properties\<close>

lemma push_eq:
  "pushOptionDependencies opts reqs os = reqs @ concat (map (optionRequirements opts) os)"
  by (induction os arbitrary: reqs) (auto simp: optionRequirements_def split: option.splits)

lemma someIncludes_simps:
  "someIncludes [] p = False"
  "someIncludes (x # xs) p = (includes_js x p \<or> someIncludes xs p)"
  "someIncludes (xs @ ys) p = (someIncludes xs p \<or> someIncludes ys p)"
  "someIncludes (if c then xs else []) p = (c \<and> someIncludes xs p)"
  by (auto simp: someIncludes_def list_ex_iff)

lemma catalogue_lines:
  "concat (map (optionRequirements opts) PYTHON_OPTIONS) =
     (if truthy (opts (js ''orm'')) then [js ''sqlalchemy>=0.0.0''] else [])
     @ (if truthy (opts (js ''migrations'')) then [js ''alembic>=0.0.0''] else [])
     @ (if truthy (opts (js ''tests''))
        then [js ''pytest>=0.0.0'', js ''pytest-asyncio>=0.0.0'', js ''httpx>=0.0.0''] else [])
     @ (if truthy (opts (js ''envFiles'')) then [js ''python-dotenv>=0.0.0''] else [])
     @ (if truthy (opts (js ''linter'')) then [js ''ruff>=0.0.0''] else [])
     @ (if truthy (opts (js ''formatter'')) then [js ''black>=0.0.0''] else [])
     @ (if truthy (opts (js ''preCommit'')) then [js ''pre-commit>=0.0.0''] else [])
     @ (if truthy (opts (js ''logging'')) then [js ''structlog>=0.0.0''] else [])"
  by (simp add: PYTHON_OPTIONS_def optionRequirements_def js_def)

lemma includes_base:
  "\<not> someIncludes baseRequirements (js ''python-dotenv'')"
  "\<not> someIncludes baseRequirements (js ''sqlalchemy'')"
  "\<not> someIncludes baseRequirements (js ''alembic'')"
  "\<not> someIncludes baseRequirements (js ''pytest'')"
  by (simp_all add: someIncludes_simps baseRequirements_def js_def)

lemma includes_catalogue:
  "someIncludes (concat (map (optionRequirements opts) PYTHON_OPTIONS)) (js ''python-dotenv'')
     = truthy (opts (js ''envFiles''))"
  "someIncludes (concat (map (optionRequirements opts) PYTHON_OPTIONS)) (js ''sqlalchemy'')
     = truthy (opts (js ''orm''))"
  "someIncludes (concat (map (optionRequirements opts) PYTHON_OPTIONS)) (js ''alembic'')
     = truthy (opts (js ''migrations''))"
  "someIncludes (concat (map (optionRequirements opts) PYTHON_OPTIONS)) (js ''pytest'')
     = truthy (opts (js ''tests''))"
  by (simp_all add: catalogue_lines someIncludes_simps js_def split del: if_split cong: if_cong)

lemma includes_default:
  "\<not> someIncludes (defaultRequirements opts k [js ''python-dotenv>=1.0.0'']) (js ''sqlalchemy'')"
  "\<not> someIncludes (defaultRequirements opts k [js ''python-dotenv>=1.0.0'']) (js ''alembic'')"
  "\<not> someIncludes (defaultRequirements opts k [js ''python-dotenv>=1.0.0'']) (js ''pytest'')"
  by (simp_all add: defaultRequirements_def someIncludes_simps js_def)

lemma requirementsArray_eq:
  "requirementsArray opts =
     baseRequirements @ concat (map (optionRequirements opts) PYTHON_OPTIONS)
     @ defaultRequirements opts (js ''envFiles'') [js ''python-dotenv>=1.0.0'']
     @ defaultRequirements opts (js ''tests'')
         [js ''pytest>=7.4.3'', js ''pytest-asyncio>=0.21.1'', js ''httpx>=0.25.2'']"
proof -
  define R0 where "R0 = baseRequirements @ concat (map (optionRequirements opts) PYTHON_OPTIONS)"
  define R1 where "R1 = R0 @ defaultRequirements opts (js ''envFiles'') [js ''python-dotenv>=1.0.0'']"
  have r0: "someIncludes R0 (js ''python-dotenv'') = truthy (opts (js ''envFiles''))"
    by (simp add: R0_def someIncludes_simps(3) includes_base includes_catalogue)
  have step1: "(if notFalse (opts (js ''envFiles'')) \<and> \<not> someIncludes R0 (js ''python-dotenv'')
                then R0 @ [js ''python-dotenv>=1.0.0''] else R0) = R1"
    by (simp add: r0 R1_def defaultRequirements_def)
  have s1: "someIncludes R1 (js ''sqlalchemy'') = truthy (opts (js ''orm''))"
    and s2: "someIncludes R1 (js ''alembic'') = truthy (opts (js ''migrations''))"
    and s3: "someIncludes R1 (js ''pytest'') = truthy (opts (js ''tests''))"
    by (simp_all add: R1_def R0_def someIncludes_simps(3) includes_base includes_catalogue
        includes_default)
  have "requirementsArray opts =
      (if notFalse (opts (js ''tests'')) \<and> \<not> someIncludes R1 (js ''pytest'')
       then R1 @ [js ''pytest>=7.4.3'', js ''pytest-asyncio>=0.21.1'', js ''httpx>=0.25.2'']
       else R1)"
    unfolding requirementsArray_def getPythonOptions_def push_eq Let_def R0_def [symmetric] step1
    by (simp add: s1 s2)
  also have "\<dots> = R1 @ defaultRequirements opts (js ''tests'')
         [js ''pytest>=7.4.3'', js ''pytest-asyncio>=0.21.1'', js ''httpx>=0.25.2'']"
    by (simp add: s3 defaultRequirements_def)
  finally show ?thesis by (simp add: R1_def R0_def)
qed

lemma set_arrayFromSet_aux:
  "set (foldl (\<lambda>seen x. if x \<in> set seen then seen else seen @ [x]) acc xs) = set acc \<union> set xs"
  by (induction xs arbitrary: acc) auto

lemma distinct_arrayFromSet_aux:
  "distinct acc \<Longrightarrow> distinct (foldl (\<lambda>seen x. if x \<in> set seen then seen else seen @ [x]) acc xs)"
  by (induction xs arbitrary: acc) auto

lemma set_uniqueRequirements: "set (uniqueRequirements opts) = set (requirementsArray opts)"
  by (simp add: uniqueRequirements_def arrayFromSet_def set_arrayFromSet_aux)

lemma sorted_uniqueRequirements: "sorted (uniqueRequirements opts)"
  by (simp add: uniqueRequirements_def)

lemma distinct_uniqueRequirements: "distinct (uniqueRequirements opts)"
  by (simp add: uniqueRequirements_def arrayFromSet_def distinct_arrayFromSet_aux)

lemma set_catalogue:
  "set (concat (map (optionRequirements opts) PYTHON_OPTIONS)) =
     {d @ js ''>=0.0.0'' | k d. k \<in> enabledKeys opts \<and> d \<in> set (declaredDependencies k)}"
  by (auto simp: optionRequirements_def declaredDependencies_def enabledKeys_def
      split: option.splits if_splits)

lemma declared_in_catalogue: "set (declaredDependencies k) \<subseteq> set catalogueDependencies"
  by (auto simp: declaredDependencies_def catalogueDependencies_def)

lemma packageName_catalogue:
  "d \<in> set catalogueDependencies \<Longrightarrow> packageName (d @ js ''>=0.0.0'') = d"
  by (auto simp: catalogueDependencies_def PYTHON_OPTIONS_def packageName_def js_def)

lemma packageName_declared:
  "d \<in> set (declaredDependencies k) \<Longrightarrow> packageName (d @ js ''>=0.0.0'') = d"
  using declared_in_catalogue packageName_catalogue by blast

lemma declared_envFiles: "declaredDependencies (js ''envFiles'') = [js ''python-dotenv'']"
  by (simp add: declaredDependencies_def PYTHON_OPTIONS_def js_def)

lemma declared_tests:
  "declaredDependencies (js ''tests'') = [js ''pytest'', js ''pytest-asyncio'', js ''httpx'']"
  by (simp add: declaredDependencies_def PYTHON_OPTIONS_def js_def)

lemma declared_orm: "declaredDependencies (js ''orm'') = [js ''sqlalchemy'']"
  by (simp add: declaredDependencies_def PYTHON_OPTIONS_def js_def)

lemma packageName_defaults:
  "packageName (js ''python-dotenv>=1.0.0'') = js ''python-dotenv''"
  "packageName (js ''pytest>=7.4.3'') = js ''pytest''"
  "packageName (js ''pytest-asyncio>=0.21.1'') = js ''pytest-asyncio''"
  "packageName (js ''httpx>=0.25.2'') = js ''httpx''"
  by (simp_all add: packageName_def js_def)

lemma names_catalogue:
  "packageName ` set (concat (map (optionRequirements opts) PYTHON_OPTIONS)) =
     (\<Union>k\<in>enabledKeys opts. set (declaredDependencies k))"
  unfolding set_catalogue
  by (auto simp: packageName_declared image_iff) (metis packageName_declared)

lemma default_names:
  "packageName ` set (defaultRequirements opts k [js ''python-dotenv>=1.0.0'']) =
     (if notFalse (opts k) \<and> \<not> truthy (opts k) then {js ''python-dotenv''} else {})"
  "packageName ` set (defaultRequirements opts k
       [js ''pytest>=7.4.3'', js ''pytest-asyncio>=0.21.1'', js ''httpx>=0.25.2'']) =
     (if notFalse (opts k) \<and> \<not> truthy (opts k)
      then {js ''pytest'', js ''pytest-asyncio'', js ''httpx''} else {})"
proof -
  show "packageName ` set (defaultRequirements opts k [js ''python-dotenv>=1.0.0'']) =
     (if notFalse (opts k) \<and> \<not> truthy (opts k) then {js ''python-dotenv''} else {})"
    by (cases "notFalse (opts k) \<and> \<not> truthy (opts k)")
      (simp_all only: defaultRequirements_def simp_thms if_True if_False list.set image_insert image_empty
        packageName_defaults)
  show "packageName ` set (defaultRequirements opts k
       [js ''pytest>=7.4.3'', js ''pytest-asyncio>=0.21.1'', js ''httpx>=0.25.2'']) =
     (if notFalse (opts k) \<and> \<not> truthy (opts k)
      then {js ''pytest'', js ''pytest-asyncio'', js ''httpx''} else {})"
    by (cases "notFalse (opts k) \<and> \<not> truthy (opts k)")
      (simp_all only: defaultRequirements_def simp_thms if_True if_False list.set image_insert image_empty
        packageName_defaults)
qed

lemma default_absorb:
  "(t \<Longrightarrow> D \<subseteq> U) \<Longrightarrow> U \<union> (if nf \<and> \<not> t then D else {}) \<union> V = U \<union> (if nf then D else {}) \<union> V"
  by auto

lemma set_requirementsArray:
  "set (requirementsArray opts) =
     set baseRequirements
     \<union> {d @ js ''>=0.0.0'' | k d. k \<in> enabledKeys opts \<and> d \<in> set (declaredDependencies k)}
     \<union> set (defaultRequirements opts (js ''envFiles'') [js ''python-dotenv>=1.0.0''])
     \<union> set (defaultRequirements opts (js ''tests'')
         [js ''pytest>=7.4.3'', js ''pytest-asyncio>=0.21.1'', js ''httpx>=0.25.2''])"
  unfolding requirementsArray_eq set_append set_catalogue by (simp only: Un_assoc)

text \<open>The written text, read back line by line, is the sorted list of requirements.\<close>

lemma splitOn_piece: "sep \<notin> set x \<Longrightarrow> splitOn (x @ sep # rest) sep = x # splitOn rest sep"
  by (induction x) auto

lemma splitOn_join:
  "xs \<noteq> [] \<Longrightarrow> \<forall>x\<in>set xs. sep \<notin> set x \<Longrightarrow> splitOn (join xs [sep] @ [sep]) sep = xs @ [[]]"
proof (induction xs "[sep]" rule: join.induct)
  case 1
  then show ?case by simp
next
  case (2 x)
  then show ?case using splitOn_piece [of sep x "[]"] by simp
next
  case (3 x y ys)
  then show ?case using splitOn_piece [of sep x "join (y # ys) [sep] @ [sep]"] by simp
qed

lemma textLines_join:
  "xs \<noteq> [] \<Longrightarrow> \<forall>x\<in>set xs. 0x0A \<notin> set x \<Longrightarrow> textLines (join xs [0x0A] @ [0x0A]) = xs"
  by (simp add: textLines_def splitOn_join Let_def)

lemma possible_no_newline: "l \<in> set possibleRequirements \<Longrightarrow> 0x0A \<notin> set l"
  by (auto simp: possibleRequirements_def catalogueDependencies_def PYTHON_OPTIONS_def
      baseRequirements_def js_def)

lemma requirements_possible: "set (requirementsArray opts) \<subseteq> set possibleRequirements"
proof -
  have 1: "{d @ js ''>=0.0.0'' | k d. k \<in> enabledKeys opts \<and> d \<in> set (declaredDependencies k)}
      \<subseteq> set (map (\<lambda>dep. dep @ js ''>=0.0.0'') catalogueDependencies)"
    using declared_in_catalogue by auto
  have 2: "set (defaultRequirements opts k [a]) \<subseteq> {a}" for k a
    by (auto simp: defaultRequirements_def)
  have 3: "set (defaultRequirements opts k [a, b, c]) \<subseteq> {a, b, c}" for k a b c
    by (auto simp: defaultRequirements_def)
  show ?thesis
    unfolding set_requirementsArray possibleRequirements_def set_append
    using 1 2 [of "js ''envFiles''" "js ''python-dotenv>=1.0.0''"]
      3 [of "js ''tests''" "js ''pytest>=7.4.3''" "js ''pytest-asyncio>=0.21.1''" "js ''httpx>=0.25.2''"]
    by (simp only: list.set) blast
qed

lemma uniqueRequirements_nonempty: "uniqueRequirements opts \<noteq> []"
proof -
  have "js ''fastapi>=0.104.1'' \<in> set (uniqueRequirements opts)"
    by (simp add: set_uniqueRequirements set_requirementsArray baseRequirements_def)
  then show ?thesis by auto
qed

lemma manifest_lines: "textLines (requirementsTxt opts) = uniqueRequirements opts"
  unfolding requirementsTxt_def
  using uniqueRequirements_nonempty requirements_possible possible_no_newline
  by (intro textLines_join) (auto simp: set_uniqueRequirements)

text \<open>The manifest holds no placeholder, and no later operation addresses it.\<close>

lemma replaceToken_no_open_id: "0x7B \<notin> set u \<Longrightarrow> replaceToken key val preceding u = u"
  using replaceToken_no_open [of u key val preceding "[]"] by (simp add: replaceToken_Nil)

lemma applyReplacements_no_open: "0x7B \<notin> set u \<Longrightarrow> applyReplacements r u = u"
  by (induction r) (auto simp: replaceToken_no_open_id)

lemma possible_no_open: "l \<in> set possibleRequirements \<Longrightarrow> 0x7B \<notin> set l"
  by (auto simp: possibleRequirements_def catalogueDependencies_def PYTHON_OPTIONS_def
      baseRequirements_def js_def)

lemma join_units: "c \<in> set (join xs sep) \<Longrightarrow> c \<in> set sep \<or> (\<exists>x\<in>set xs. c \<in> set x)"
  by (induction xs sep rule: join.induct) auto

lemma requirementsTxt_no_open: "0x7B \<notin> set (requirementsTxt opts)"
proof
  assume "0x7B \<in> set (requirementsTxt opts)"
  then have "0x7B \<in> set (join (uniqueRequirements opts) [0x0A])"
    by (simp add: requirementsTxt_def)
  then obtain l where "l \<in> set (uniqueRequirements opts)" "0x7B \<in> set l"
    using join_units [of "0x7B" "uniqueRequirements opts" "[0x0A]"] by auto
  then show False
    using requirements_possible possible_no_open by (auto simp: set_uniqueRequirements)
qed

lemma leaves_if: "(a \<Longrightarrow> list_all P xs) \<Longrightarrow> list_all P (if a then xs else [])"
  by simp

lemma optional_files_manifest_first:
  "generateOptionalFiles T targetPath options =
       WriteFile (targetPath @ [js ''requirements.txt''])
         (requirementsTxt (case go_options options of Some given \<Rightarrow> given | None \<Rightarrow> Map.empty))
       # tl (generateOptionalFiles T targetPath options)"
  by (simp add: generateOptionalFiles_def Let_def generateRequirementsTxt_def)

lemma optional_files_leave_manifest:
  "list_all (leaves (targetPath @ [js ''requirements.txt'']))
     (tl (generateOptionalFiles T targetPath options))"
  unfolding generateOptionalFiles_def Let_def generateRequirementsTxt_def append_Cons append_Nil
    list.sel list_all_append
  apply (intro conjI leaves_if)
  apply (simp_all add: generateORMFiles_def generateMigrationFiles_def generateDockerFiles_def
      generateDockerCompose_def generateTestFiles_def generateEnvFiles_def generateProdConfig_def
      generateDevConfig_def generateLinterConfig_def generatePreCommitConfig_def
      generateLoggingConfig_def generateMonitoring_def generateREADME_def generateMainPy_def
      generateConfigPy_def Let_def js_def)
  done

lemma manifest_on_disk:
  assumes "run (generateOptionalFiles T targetPath options) fs = (None, fs')"
  shows "\<exists>r w. lookup fs' (targetPath @ [js ''requirements.txt'']) =
     Some (File (requirementsTxt
        (case go_options options of Some given \<Rightarrow> given | None \<Rightarrow> Map.empty)) r w)"
proof -
  let ?p = "targetPath @ [js ''requirements.txt'']"
  let ?t = "requirementsTxt (case go_options options of Some given \<Rightarrow> given | None \<Rightarrow> Map.empty)"
  let ?rest = "tl (generateOptionalFiles T targetPath options)"
  have "run (WriteFile ?p ?t # ?rest) fs = (None, fs')"
    using assms optional_files_manifest_first [of T targetPath options] by simp
  then obtain fs1 where w: "writeFile ?p ?t fs = Inr fs1" and r: "run ?rest fs1 = (None, fs')"
    by (cases "writeFile ?p ?t fs") (auto split: prod.splits option.splits)
  from writeFile_content [OF w] obtain rd wr where f: "lookup fs1 ?p = Some (File ?t rd wr)"
    by blast
  have "applyReplacements rp ?t = ?t" for rp
    using requirementsTxt_no_open by (rule applyReplacements_no_open)
  then have "lookup fs' ?p = Some (File ?t rd wr)"
    using r f optional_files_leave_manifest by (rule run_file)
  then show ?thesis by blast
qed

lemma manifestPackages_eq:
  "manifestPackages opts =
     packageName ` set baseRequirements
     \<union> (\<Union>k\<in>enabledKeys opts. set (declaredDependencies k))
     \<union> (if notFalse (opts (js ''envFiles'')) then {js ''python-dotenv''} else {})
     \<union> (if notFalse (opts (js ''tests''))
        then {js ''pytest'', js ''pytest-asyncio'', js ''httpx''} else {})"
proof -
  define U where "U = packageName ` set baseRequirements
     \<union> (\<Union>k\<in>enabledKeys opts. set (declaredDependencies k))"
  define E where "E = (if notFalse (opts (js ''envFiles'')) then {js ''python-dotenv''} else {})"
  define T where "T = (if notFalse (opts (js ''tests''))
        then {js ''pytest'', js ''pytest-asyncio'', js ''httpx''} else {})"
  have e: "truthy (opts (js ''envFiles'')) \<Longrightarrow> {js ''python-dotenv''} \<subseteq> U"
    using declared_envFiles by (force simp: enabledKeys_def U_def)
  have t: "truthy (opts (js ''tests'')) \<Longrightarrow> {js ''pytest'', js ''pytest-asyncio'', js ''httpx''} \<subseteq> U"
    using declared_tests by (force simp: enabledKeys_def U_def)
  have "manifestPackages opts = packageName ` set (requirementsArray opts)"
    by (simp add: manifestPackages_def manifest_lines set_uniqueRequirements)
  also have "\<dots> = U
     \<union> packageName ` set (defaultRequirements opts (js ''envFiles'') [js ''python-dotenv>=1.0.0''])
     \<union> packageName ` set (defaultRequirements opts (js ''tests'')
         [js ''pytest>=7.4.3'', js ''pytest-asyncio>=0.21.1'', js ''httpx>=0.25.2''])"
    unfolding U_def
    by (simp add: requirementsArray_eq image_Un names_catalogue Un_assoc del: set_concat)
  also have "\<dots> = U \<union> E
     \<union> packageName ` set (defaultRequirements opts (js ''tests'')
         [js ''pytest>=7.4.3'', js ''pytest-asyncio>=0.21.1'', js ''httpx>=0.25.2''])"
    unfolding default_names(1) E_def using e by (rule default_absorb)
  also have "\<dots> = U \<union> (if notFalse (opts (js ''tests'')) \<and> \<not> truthy (opts (js ''tests''))
      then {js ''pytest'', js ''pytest-asyncio'', js ''httpx''} else {}) \<union> E"
    unfolding default_names(2) by (simp add: Un_ac)
  also have "\<dots> = U \<union> T \<union> E"
    unfolding T_def using t by (rule default_absorb)
  also have "\<dots> = U \<union> E \<union> T"
    by (simp add: Un_ac)
  finally show ?thesis
    by (simp only: U_def E_def T_def)
qed

lemma default_truthy: "truthy (opts k) \<Longrightarrow> defaultRequirements opts k lines = []"
  by (simp add: defaultRequirements_def)

lemma set_default_single:
  "set (defaultRequirements opts k [l]) =
     (if notFalse (opts k) \<and> k \<notin> enabledKeys opts then {l} else {})"
  by (simp add: defaultRequirements_def enabledKeys_def)

lemma absorb_last: "T \<subseteq> U \<Longrightarrow> B \<union> U \<union> E \<union> (if c then T else {}) = B \<union> U \<union> E"
  by auto

text \<open>The written text is its lines, each followed by a line feed.\<close>

lemma join_lines: "xs \<noteq> [] \<Longrightarrow> join xs sep @ sep = concat (map (\<lambda>line. line @ sep) xs)"
  by (induction xs sep rule: join.induct) simp_all

lemma manifest_text:
  "requirementsTxt opts = concat (map (\<lambda>line. line @ [0x0A]) (textLines (requirementsTxt opts)))"
  unfolding manifest_lines
  unfolding requirementsTxt_def using uniqueRequirements_nonempty by (rule join_lines)

text \<open>
  Claim C2, as stated, fails. With exactly \<open>orm\<close> and \<open>tests\<close> enabled the manifest also
  holds \<open>python-dotenv>=1.0.0\<close>: the key \<open>envFiles\<close> is absent, hence not \<open>false\<close>, and
  the default branch adds it. So the packages of the manifest are not the union of the
  base dependencies and the declared dependencies of the two options.
\<close>

theorem manifest_orm_tests_counterexample:
  "js ''python-dotenv>=1.0.0''
      \<in> set (textLines (requirementsTxt [js ''orm'' \<mapsto> Boolean True, js ''tests'' \<mapsto> Boolean True]))
   \<and> manifestPackages [js ''orm'' \<mapsto> Boolean True, js ''tests'' \<mapsto> Boolean True]
      \<noteq> packageName ` set baseRequirements
          \<union> set (declaredDependencies (js ''orm'')) \<union> set (declaredDependencies (js ''tests''))"
proof -
  let ?o = "[js ''orm'' \<mapsto> Boolean True, js ''tests'' \<mapsto> Boolean True]"
  have nf: "notFalse (?o (js ''envFiles''))" and nt: "\<not> truthy (?o (js ''envFiles''))"
    by (simp_all add: notFalse_def js_def)
  have 1: "js ''python-dotenv>=1.0.0'' \<in> set (textLines (requirementsTxt ?o))"
    unfolding manifest_lines set_uniqueRequirements requirementsArray_eq
    using nf nt by (simp add: defaultRequirements_def del: set_concat)
  have 2: "js ''python-dotenv'' \<in> manifestPackages ?o"
    unfolding manifestPackages_eq using nf by simp
  have 3: "js ''python-dotenv'' \<notin> packageName ` set baseRequirements
          \<union> set (declaredDependencies (js ''orm'')) \<union> set (declaredDependencies (js ''tests''))"
    unfolding declared_orm declared_tests
    by (simp add: baseRequirements_def packageName_def js_def)
  from 1 2 3 show ?thesis by metis
qed

text \<open>
  Claim C2, amended. For every options map with \<open>orm\<close> and \<open>tests\<close> enabled: whenever
  the operations of \<open>generateOptionalFiles\<close> all succeed, the file \<open>requirements.txt\<close>
  in the target directory holds the text of the manifest; that text is its lines, each
  followed by a line feed; the lines are sorted and free of duplicates, and they are
  exactly: the base dependencies, the line \<open>dep>=0.0.0\<close> for every dependency declared by
  an enabled option, and \<open>python-dotenv>=1.0.0\<close> when \<open>envFiles\<close> is neither enabled nor
  \<open>false\<close>. The package names of the lines are those of the base dependencies, the
  declared dependencies of the enabled options, and \<open>python-dotenv\<close> unless \<open>envFiles\<close>
  is \<open>false\<close>.
\<close>

theorem manifest_content:
  assumes "truthy (opts (js ''orm''))" and "truthy (opts (js ''tests''))"
  shows "(\<forall>fs fs'. run (generateOptionalFiles T targetPath (optionsMap opts projectName)) fs = (None, fs')
          \<longrightarrow> (\<exists>r w. lookup fs' (targetPath @ [js ''requirements.txt''])
                       = Some (File (requirementsTxt opts) r w)))
     \<and> requirementsTxt opts
         = concat (map (\<lambda>line. line @ [0x0A]) (textLines (requirementsTxt opts)))
     \<and> sorted (textLines (requirementsTxt opts)) \<and> distinct (textLines (requirementsTxt opts))
     \<and> set (textLines (requirementsTxt opts)) =
         set baseRequirements
         \<union> {d @ js ''>=0.0.0'' | k d. k \<in> enabledKeys opts \<and> d \<in> set (declaredDependencies k)}
         \<union> (if notFalse (opts (js ''envFiles'')) \<and> js ''envFiles'' \<notin> enabledKeys opts
            then {js ''python-dotenv>=1.0.0''} else {})
     \<and> manifestPackages opts =
         packageName ` set baseRequirements
         \<union> (\<Union>k\<in>enabledKeys opts. set (declaredDependencies k))
         \<union> (if notFalse (opts (js ''envFiles'')) then {js ''python-dotenv''} else {})"
proof -
  have "{js ''pytest'', js ''pytest-asyncio'', js ''httpx''}
        \<subseteq> (\<Union>k\<in>enabledKeys opts. set (declaredDependencies k))"
    using assms(2) declared_tests by (force simp: enabledKeys_def)
  then have n: "manifestPackages opts =
         packageName ` set baseRequirements
         \<union> (\<Union>k\<in>enabledKeys opts. set (declaredDependencies k))
         \<union> (if notFalse (opts (js ''envFiles'')) then {js ''python-dotenv''} else {})"
    unfolding manifestPackages_eq by (rule absorb_last)
  have s: "set (textLines (requirementsTxt opts)) =
         set baseRequirements
         \<union> {d @ js ''>=0.0.0'' | k d. k \<in> enabledKeys opts \<and> d \<in> set (declaredDependencies k)}
         \<union> (if notFalse (opts (js ''envFiles'')) \<and> js ''envFiles'' \<notin> enabledKeys opts
            then {js ''python-dotenv>=1.0.0''} else {})"
    unfolding manifest_lines set_uniqueRequirements set_requirementsArray
      default_truthy [of opts "js ''tests''", OF assms(2)] set_default_single
    by simp
  have d: "\<forall>fs fs'. run (generateOptionalFiles T targetPath (optionsMap opts projectName)) fs = (None, fs')
          \<longrightarrow> (\<exists>r w. lookup fs' (targetPath @ [js ''requirements.txt''])
                       = Some (File (requirementsTxt opts) r w))"
    using manifest_on_disk [of T targetPath "optionsMap opts projectName"]
    by (simp add: optionsMap_def)
  have o: "sorted (textLines (requirementsTxt opts))" "distinct (textLines (requirementsTxt opts))"
    unfolding manifest_lines
    by (rule sorted_uniqueRequirements, rule distinct_uniqueRequirements)
  show ?thesis
    using d manifest_text [of opts] o n s by (intro conjI)
qed

lemma enabled_sample:
  "enabledKeys [js ''orm'' \<mapsto> Boolean True, js ''tests'' \<mapsto> Boolean True, js ''envFiles'' \<mapsto> Boolean False]
    = {js ''orm'', js ''tests''}"
  by (auto simp: enabledKeys_def js_def split: if_splits)

text \<open>
  With \<open>orm\<close> and \<open>tests\<close> enabled and \<open>envFiles\<close> set to \<open>false\<close>, the run on a disk
  that holds \<open>app/core\<close> succeeds and leaves the manifest of seven lines; its packages
  are the base dependencies and the declared dependencies of the two options, and no more.
\<close>

theorem manifest_content_witness:
  "truthy ([js ''orm'' \<mapsto> Boolean True, js ''tests'' \<mapsto> Boolean True,
            js ''envFiles'' \<mapsto> Boolean False] (js ''orm''))
   \<and> truthy ([js ''orm'' \<mapsto> Boolean True, js ''tests'' \<mapsto> Boolean True,
            js ''envFiles'' \<mapsto> Boolean False] (js ''tests''))
   \<and> fst (run (generateOptionalFiles sampleTexts []
         (optionsMap [js ''orm'' \<mapsto> Boolean True, js ''tests'' \<mapsto> Boolean True,
            js ''envFiles'' \<mapsto> Boolean False] (js ''demo''))) projectDisk) = None
   \<and> (\<exists>r w. lookup (snd (run (generateOptionalFiles sampleTexts []
         (optionsMap [js ''orm'' \<mapsto> Boolean True, js ''tests'' \<mapsto> Boolean True,
            js ''envFiles'' \<mapsto> Boolean False] (js ''demo''))) projectDisk)) [js ''requirements.txt'']
       = Some (File (requirementsTxt [js ''orm'' \<mapsto> Boolean True, js ''tests'' \<mapsto> Boolean True,
            js ''envFiles'' \<mapsto> Boolean False]) r w))
   \<and> requirementsTxt [js ''orm'' \<mapsto> Boolean True, js ''tests'' \<mapsto> Boolean True,
            js ''envFiles'' \<mapsto> Boolean False]
       = js ''fastapi>=0.104.1'' @ [0x0A] @ js ''httpx>=0.0.0'' @ [0x0A]
         @ js ''pydantic-settings>=2.1.0'' @ [0x0A] @ js ''pytest-asyncio>=0.0.0'' @ [0x0A]
         @ js ''pytest>=0.0.0'' @ [0x0A] @ js ''sqlalchemy>=0.0.0'' @ [0x0A]
         @ js ''uvicorn[standard]>=0.24.0'' @ [0x0A]
   \<and> sorted (textLines (requirementsTxt [js ''orm'' \<mapsto> Boolean True, js ''tests'' \<mapsto> Boolean True,
            js ''envFiles'' \<mapsto> Boolean False]))
   \<and> distinct (textLines (requirementsTxt [js ''orm'' \<mapsto> Boolean True, js ''tests'' \<mapsto> Boolean True,
            js ''envFiles'' \<mapsto> Boolean False]))
   \<and> manifestPackages [js ''orm'' \<mapsto> Boolean True, js ''tests'' \<mapsto> Boolean True,
            js ''envFiles'' \<mapsto> Boolean False]
       = packageName ` set baseRequirements
         \<union> (set (declaredDependencies (js ''orm'')) \<union> set (declaredDependencies (js ''tests'')))"
proof -
  let ?o = "[js ''orm'' \<mapsto> Boolean True, js ''tests'' \<mapsto> Boolean True,
            js ''envFiles'' \<mapsto> Boolean False]"
  let ?run = "run (generateOptionalFiles sampleTexts [] (optionsMap ?o (js ''demo''))) projectDisk"
  have o: "truthy (?o (js ''orm''))" and t: "truthy (?o (js ''tests''))"
    and e: "\<not> notFalse (?o (js ''envFiles''))"
    by (simp_all add: js_def notFalse_def)
  have r: "fst ?run = None"
    by (simp add: generateOptionalFiles_def optionsMap_def sampleTexts_def Let_def projectDisk_def
      generateRequirementsTxt_def generateMainPy_def generateConfigPy_def generateTestFiles_def
      generateORMFiles_def writeFile_def replacePlaceholders_def js_def)
  have r': "?run = (None, snd ?run)"
    using prod.collapse [of ?run, symmetric] unfolding r .
  have x: "requirementsTxt ?o
       = js ''fastapi>=0.104.1'' @ [0x0A] @ js ''httpx>=0.0.0'' @ [0x0A]
         @ js ''pydantic-settings>=2.1.0'' @ [0x0A] @ js ''pytest-asyncio>=0.0.0'' @ [0x0A]
         @ js ''pytest>=0.0.0'' @ [0x0A] @ js ''sqlalchemy>=0.0.0'' @ [0x0A]
         @ js ''uvicorn[standard]>=0.24.0'' @ [0x0A]"
    by (simp add: requirementsTxt_def uniqueRequirements_def arrayFromSet_def requirementsArray_eq
      catalogue_lines defaultRequirements_def baseRequirements_def notFalse_def js_def)
  note c = manifest_content [OF o t, of sampleTexts "[]" "js ''demo''"]
  have m: "\<exists>r w. lookup (snd ?run) [js ''requirements.txt'']
       = Some (File (requirementsTxt ?o) r w)"
    using c [THEN conjunct1, rule_format, OF r'] unfolding append_Nil .
  have s: "sorted (textLines (requirementsTxt ?o))"
    using c [THEN conjunct2, THEN conjunct2, THEN conjunct1] .
  have d: "distinct (textLines (requirementsTxt ?o))"
    using c [THEN conjunct2, THEN conjunct2, THEN conjunct2, THEN conjunct1] .
  have p: "manifestPackages ?o = packageName ` set baseRequirements
         \<union> (set (declaredDependencies (js ''orm'')) \<union> set (declaredDependencies (js ''tests'')))"
    using c [THEN conjunct2, THEN conjunct2, THEN conjunct2, THEN conjunct2, THEN conjunct2] e
    by (simp only: enabled_sample if_False Un_empty_right UN_insert UN_empty)
  show ?thesis
    using o t r m x s d p by (intro conjI)
qed

text \<open>The manifest that is written when no option is given.\<close>

lemma empty_manifest:
  "requirementsTxt Map.empty =
     js ''fastapi>=0.104.1'' @ [0x0A] @ js ''httpx>=0.25.2'' @ [0x0A]
     @ js ''pydantic-settings>=2.1.0'' @ [0x0A] @ js ''pytest-asyncio>=0.21.1'' @ [0x0A]
     @ js ''pytest>=7.4.3'' @ [0x0A] @ js ''python-dotenv>=1.0.0'' @ [0x0A]
     @ js ''uvicorn[standard]>=0.24.0'' @ [0x0A]"
  by (simp add: requirementsTxt_def uniqueRequirements_def arrayFromSet_def requirementsArray_eq
      catalogue_lines defaultRequirements_def baseRequirements_def notFalse_def js_def)

text \<open>
  Claim C9. Whatever the options, the first operation of \<open>generateOptionalFiles\<close> writes
  \<open>requirements.txt\<close>, for the given options or for the empty map when none are given,
  and whenever all operations succeed the file holds that text at the end. The lines of
  the text name \<open>pytest\<close>, \<open>pytest-asyncio\<close> and \<open>httpx\<close> whenever \<open>tests\<close> is not
  \<open>false\<close>, and \<open>python-dotenv\<close> whenever \<open>envFiles\<close> is not \<open>false\<close>. In particular
  the text for the empty options map is the seven lines \<open>fastapi>=0.104.1\<close>,
  \<open>httpx>=0.25.2\<close>, \<open>pydantic-settings>=2.1.0\<close>, \<open>pytest-asyncio>=0.21.1\<close>,
  \<open>pytest>=7.4.3\<close>, \<open>python-dotenv>=1.0.0\<close> and \<open>uvicorn[standard]>=0.24.0\<close>, and it
  names all four packages.
\<close>

theorem default_on_dependencies:
  "(\<exists>rest. generateOptionalFiles T targetPath options =
       WriteFile (targetPath @ [js ''requirements.txt''])
         (requirementsTxt (case go_options options of Some given \<Rightarrow> given | None \<Rightarrow> Map.empty))
       # rest)
   \<and> (\<forall>fs fs'. run (generateOptionalFiles T targetPath options) fs = (None, fs')
        \<longrightarrow> (\<exists>r w. lookup fs' (targetPath @ [js ''requirements.txt'']) =
               Some (File (requirementsTxt
                 (case go_options options of Some given \<Rightarrow> given | None \<Rightarrow> Map.empty)) r w)))
   \<and> (notFalse (opts (js ''tests'')) \<longrightarrow>
        js ''pytest'' \<in> manifestPackages opts \<and> js ''pytest-asyncio'' \<in> manifestPackages opts
        \<and> js ''httpx'' \<in> manifestPackages opts)
   \<and> (notFalse (opts (js ''envFiles'')) \<longrightarrow> js ''python-dotenv'' \<in> manifestPackages opts)
   \<and> requirementsTxt Map.empty =
       js ''fastapi>=0.104.1'' @ [0x0A] @ js ''httpx>=0.25.2'' @ [0x0A]
       @ js ''pydantic-settings>=2.1.0'' @ [0x0A] @ js ''pytest-asyncio>=0.21.1'' @ [0x0A]
       @ js ''pytest>=7.4.3'' @ [0x0A] @ js ''python-dotenv>=1.0.0'' @ [0x0A]
       @ js ''uvicorn[standard]>=0.24.0'' @ [0x0A]
   \<and> js ''pytest'' \<in> manifestPackages Map.empty
   \<and> js ''pytest-asyncio'' \<in> manifestPackages Map.empty
   \<and> js ''httpx'' \<in> manifestPackages Map.empty
   \<and> js ''python-dotenv'' \<in> manifestPackages Map.empty"
proof -
  have 1: "\<exists>rest. generateOptionalFiles T targetPath options =
       WriteFile (targetPath @ [js ''requirements.txt''])
         (requirementsTxt (case go_options options of Some given \<Rightarrow> given | None \<Rightarrow> Map.empty))
       # rest"
    by (simp add: generateOptionalFiles_def generateRequirementsTxt_def Let_def)
  have 2: "notFalse (m (js ''tests'')) \<Longrightarrow>
        js ''pytest'' \<in> manifestPackages m \<and> js ''pytest-asyncio'' \<in> manifestPackages m
        \<and> js ''httpx'' \<in> manifestPackages m" for m
    by (simp add: manifestPackages_eq)
  have 3: "notFalse (m (js ''envFiles'')) \<Longrightarrow> js ''python-dotenv'' \<in> manifestPackages m" for m
    by (simp add: manifestPackages_eq)
  have e: "notFalse (Map.empty (js ''tests''))" "notFalse (Map.empty (js ''envFiles''))"
    by (simp_all add: notFalse_def)
  have 4: "\<forall>fs fs'. run (generateOptionalFiles T targetPath options) fs = (None, fs')
        \<longrightarrow> (\<exists>r w. lookup fs' (targetPath @ [js ''requirements.txt'']) =
               Some (File (requirementsTxt
                 (case go_options options of Some given \<Rightarrow> given | None \<Rightarrow> Map.empty)) r w))"
    using manifest_on_disk by blast
  from 2 [OF e(1)] have 5: "js ''pytest'' \<in> manifestPackages Map.empty"
    "js ''pytest-asyncio'' \<in> manifestPackages Map.empty" "js ''httpx'' \<in> manifestPackages Map.empty"
    by blast+
  show ?thesis
    using 1 4 2 [of opts] 3 [of opts] empty_manifest 5 3 [OF e(2)]
    by (intro conjI impI) blast+
qed


text \<open>
  The same at the options map that only enables \<open>docker\<close>; and a run without options on
  a disk that holds \<open>app/core\<close> succeeds and leaves the seven lines in the file.
\<close>

theorem default_on_dependencies_witness:
  "notFalse ([js ''docker'' \<mapsto> Boolean True] (js ''tests''))
   \<and> notFalse ([js ''docker'' \<mapsto> Boolean True] (js ''envFiles''))
   \<and> js ''pytest'' \<in> manifestPackages [js ''docker'' \<mapsto> Boolean True]
   \<and> js ''pytest-asyncio'' \<in> manifestPackages [js ''docker'' \<mapsto> Boolean True]
   \<and> js ''httpx'' \<in> manifestPackages [js ''docker'' \<mapsto> Boolean True]
   \<and> js ''python-dotenv'' \<in> manifestPackages [js ''docker'' \<mapsto> Boolean True]
   \<and> fst (run (generateOptionalFiles sampleTexts [] sampleRequest) projectDisk) = None
   \<and> (\<exists>r w. lookup (snd (run (generateOptionalFiles sampleTexts [] sampleRequest) projectDisk))
                [js ''requirements.txt'']
        = Some (File (js ''fastapi>=0.104.1'' @ [0x0A] @ js ''httpx>=0.25.2'' @ [0x0A]
             @ js ''pydantic-settings>=2.1.0'' @ [0x0A] @ js ''pytest-asyncio>=0.21.1'' @ [0x0A]
             @ js ''pytest>=7.4.3'' @ [0x0A] @ js ''python-dotenv>=1.0.0'' @ [0x0A]
             @ js ''uvicorn[standard]>=0.24.0'' @ [0x0A]) r w))"
proof -
  let ?run = "run (generateOptionalFiles sampleTexts [] sampleRequest) projectDisk"
  have 1: "notFalse ([js ''docker'' \<mapsto> Boolean True] (js ''tests''))"
    and 2: "notFalse ([js ''docker'' \<mapsto> Boolean True] (js ''envFiles''))"
    by (simp_all add: notFalse_def js_def)
  note c = default_on_dependencies [of sampleTexts "[]" sampleRequest "[js ''docker'' \<mapsto> Boolean True]"]
  have r: "fst ?run = None"
    by (simp add: generateOptionalFiles_def sampleRequest_def sampleTexts_def Let_def projectDisk_def
      generateRequirementsTxt_def generateMainPy_def generateConfigPy_def writeFile_def
      replacePlaceholders_def js_def)
  have r': "?run = (None, snd ?run)"
    using prod.collapse [of ?run, symmetric] unfolding r .
  have g: "go_options sampleRequest = None"
    by (simp add: sampleRequest_def)
  have m: "\<exists>r w. lookup (snd ?run) [js ''requirements.txt'']
        = Some (File (requirementsTxt Map.empty) r w)"
    using c [THEN conjunct2, THEN conjunct1, rule_format, OF r']
    unfolding append_Nil g option.case .
  have x: "requirementsTxt Map.empty =
       js ''fastapi>=0.104.1'' @ [0x0A] @ js ''httpx>=0.25.2'' @ [0x0A]
       @ js ''pydantic-settings>=2.1.0'' @ [0x0A] @ js ''pytest-asyncio>=0.21.1'' @ [0x0A]
       @ js ''pytest>=7.4.3'' @ [0x0A] @ js ''python-dotenv>=1.0.0'' @ [0x0A]
       @ js ''uvicorn[standard]>=0.24.0'' @ [0x0A]"
    using c [THEN conjunct2, THEN conjunct2, THEN conjunct2, THEN conjunct2, THEN conjunct1] .
  have t: "js ''pytest'' \<in> manifestPackages [js ''docker'' \<mapsto> Boolean True]
     \<and> js ''pytest-asyncio'' \<in> manifestPackages [js ''docker'' \<mapsto> Boolean True]
     \<and> js ''httpx'' \<in> manifestPackages [js ''docker'' \<mapsto> Boolean True]"
    using c [THEN conjunct2, THEN conjunct2, THEN conjunct1, rule_format, OF 1] .
  have d: "js ''python-dotenv'' \<in> manifestPackages [js ''docker'' \<mapsto> Boolean True]"
    using c [THEN conjunct2, THEN conjunct2, THEN conjunct2, THEN conjunct1, rule_format, OF 2] .
  show ?thesis
    using 1 2 t d r m [unfolded x] by (intro conjI) (elim conjE, assumption)+
qed

lemma writtenFiles_simps:
  "writtenFiles [] = {}"
  "writtenFiles (a # as) = set (writeTargets a) \<union> writtenFiles as"
  "writtenFiles (xs @ ys) = writtenFiles xs \<union> writtenFiles ys"
  by (simp_all add: writtenFiles_def)

lemma writtenFiles_if_mono:
  "(a \<Longrightarrow> b) \<Longrightarrow> writtenFiles xs = writtenFiles ys \<Longrightarrow>
     writtenFiles (if a then xs else []) \<subseteq> writtenFiles (if b then ys else [])"
  by (auto simp: writtenFiles_def)

lemma files_monotone:
  assumes "\<And>k. truthy (A k) \<Longrightarrow> truthy (B k)"
  shows "writtenFiles (generateOptionalFiles T targetPath (optionsMap A projectName))
     \<subseteq> writtenFiles (generateOptionalFiles T targetPath (optionsMap B projectName))"
  unfolding generateOptionalFiles_def Let_def optionsMap_def generatorOptions.simps option.case
    writtenFiles_simps(3)
  by (intro Un_mono writtenFiles_if_mono assms)
    (simp_all add: assms generateRequirementsTxt_def generateDockerCompose_def generateREADME_def
      generateMainPy_def generateConfigPy_def writtenFiles_def)

lemma if_set_mono: "(a \<Longrightarrow> b) \<Longrightarrow> (if a then S else {}) \<subseteq> (if b then S else {})"
  by auto

lemma packages_monotone:
  assumes "enabledKeys A \<subseteq> enabledKeys B"
    and "notFalse (A (js ''tests'')) \<Longrightarrow> notFalse (B (js ''tests''))"
    and "notFalse (A (js ''envFiles'')) \<Longrightarrow> notFalse (B (js ''envFiles''))"
  shows "manifestPackages A \<subseteq> manifestPackages B"
proof -
  have "(\<Union>k\<in>enabledKeys A. set (declaredDependencies k))
      \<subseteq> (\<Union>k\<in>enabledKeys B. set (declaredDependencies k))"
    using assms(1) by (rule UN_mono) simp
  then show ?thesis
    unfolding manifestPackages_eq
    by (intro Un_mono if_set_mono subset_refl assms(2,3))
qed

text \<open>
  Claim C1, amended. Let every key enabled in \<open>A\<close> be enabled in \<open>B\<close>. Then the files
  that the operations of \<open>generateOptionalFiles\<close> address under \<open>A\<close> are among those they
  address under \<open>B\<close>; and whenever the operations under \<open>B\<close> all succeed, every file
  addressed under \<open>A\<close> exists afterwards, and \<open>requirements.txt\<close> holds the manifest of
  \<open>B\<close>. If moreover \<open>B\<close> sets \<open>tests\<close>, respectively \<open>envFiles\<close>, to \<open>false\<close> only
  where \<open>A\<close> does, the packages that the lines of the manifest name under \<open>A\<close> are among
  those under \<open>B\<close>.
\<close>

theorem generation_monotone:
  assumes "enabledKeys A \<subseteq> enabledKeys B"
  shows "writtenFiles (generateOptionalFiles T targetPath (optionsMap A projectName))
       \<subseteq> writtenFiles (generateOptionalFiles T targetPath (optionsMap B projectName))
     \<and> (\<forall>fs fs'. run (generateOptionalFiles T targetPath (optionsMap B projectName)) fs = (None, fs')
          \<longrightarrow> (\<forall>p\<in>writtenFiles (generateOptionalFiles T targetPath (optionsMap A projectName)).
                 pathExists fs' p)
              \<and> (\<exists>r w. lookup fs' (targetPath @ [js ''requirements.txt''])
                          = Some (File (requirementsTxt B) r w)))
     \<and> ((notFalse (A (js ''tests'')) \<longrightarrow> notFalse (B (js ''tests'')))
        \<and> (notFalse (A (js ''envFiles'')) \<longrightarrow> notFalse (B (js ''envFiles'')))
        \<longrightarrow> manifestPackages A \<subseteq> manifestPackages B)"
proof -
  let ?a = "generateOptionalFiles T targetPath (optionsMap A projectName)"
  let ?b = "generateOptionalFiles T targetPath (optionsMap B projectName)"
  have "truthy (A k) \<Longrightarrow> truthy (B k)" for k
    using assms by (auto simp: enabledKeys_def)
  then have 1: "writtenFiles ?a \<subseteq> writtenFiles ?b"
    by (rule files_monotone)
  have 2: "(\<forall>p\<in>writtenFiles ?a. pathExists fs' p)
      \<and> (\<exists>r w. lookup fs' (targetPath @ [js ''requirements.txt''])
                          = Some (File (requirementsTxt B) r w))"
    if r: "run ?b fs = (None, fs')" for fs fs'
  proof
    show "\<forall>p\<in>writtenFiles ?a. pathExists fs' p"
    proof
      fix p
      assume "p \<in> writtenFiles ?a"
      with 1 have "p \<in> writtenFiles ?b" ..
      with r show "pathExists fs' p" by (rule run_writes)
    qed
  next
    show "\<exists>r w. lookup fs' (targetPath @ [js ''requirements.txt''])
                          = Some (File (requirementsTxt B) r w)"
      using manifest_on_disk [OF r] by (simp add: optionsMap_def)
  qed
  have 3: "(notFalse (A (js ''tests'')) \<longrightarrow> notFalse (B (js ''tests'')))
        \<and> (notFalse (A (js ''envFiles'')) \<longrightarrow> notFalse (B (js ''envFiles'')))
        \<longrightarrow> manifestPackages A \<subseteq> manifestPackages B"
    using packages_monotone [OF assms] by blast
  from 1 2 3 show ?thesis
    by (intro conjI allI impI) blast+
qed

text \<open>
  Claim C1, as stated, fails. No key is enabled in the empty map, so it is a subset of the
  map that sets \<open>tests\<close> to \<open>false\<close>; but the manifest of the empty map names \<open>pytest\<close>
  (the key is absent, hence not \<open>false\<close>), and the manifest of the other does not.
\<close>

theorem generation_monotone_counterexample:
  "enabledKeys Map.empty \<subseteq> enabledKeys [js ''tests'' \<mapsto> Boolean False]
   \<and> js ''pytest'' \<in> manifestPackages Map.empty
   \<and> js ''pytest'' \<notin> manifestPackages [js ''tests'' \<mapsto> Boolean False]
   \<and> \<not> manifestPackages Map.empty \<subseteq> manifestPackages [js ''tests'' \<mapsto> Boolean False]"
proof -
  let ?B = "[js ''tests'' \<mapsto> Boolean False]"
  have 1: "enabledKeys Map.empty \<subseteq> enabledKeys ?B"
    by (simp add: enabledKeys_def)
  have 2: "js ''pytest'' \<in> manifestPackages Map.empty"
    by (simp add: manifestPackages_eq notFalse_def)
  have e: "enabledKeys ?B = {}"
    by (auto simp: enabledKeys_def split: if_splits)
  have 3: "js ''pytest'' \<notin> manifestPackages ?B"
    unfolding manifestPackages_eq e
    by (simp add: notFalse_def baseRequirements_def packageName_def js_def)
  from 1 2 3 show ?thesis by blast
qed

text \<open>
  With \<open>tests\<close> enabled in \<open>A\<close>, and \<open>tests\<close> and \<open>docker\<close> in \<open>B\<close>, on a disk that holds
  \<open>app/core\<close>: the run under \<open>B\<close> succeeds and every file addressed under \<open>A\<close> exists.
\<close>

theorem generation_monotone_witness:
  "enabledKeys [js ''tests'' \<mapsto> Boolean True]
     \<subseteq> enabledKeys [js ''tests'' \<mapsto> Boolean True, js ''docker'' \<mapsto> Boolean True]
   \<and> writtenFiles (generateOptionalFiles sampleTexts []
          (optionsMap [js ''tests'' \<mapsto> Boolean True] (js ''demo'')))
     \<subseteq> writtenFiles (generateOptionalFiles sampleTexts []
          (optionsMap [js ''tests'' \<mapsto> Boolean True, js ''docker'' \<mapsto> Boolean True] (js ''demo'')))
   \<and> fst (run (generateOptionalFiles sampleTexts []
          (optionsMap [js ''tests'' \<mapsto> Boolean True, js ''docker'' \<mapsto> Boolean True] (js ''demo'')))
        projectDisk) = None
   \<and> list_all
        (pathExists (snd (run (generateOptionalFiles sampleTexts []
          (optionsMap [js ''tests'' \<mapsto> Boolean True, js ''docker'' \<mapsto> Boolean True] (js ''demo'')))
        projectDisk)))
        (concat (map writeTargets (generateOptionalFiles sampleTexts []
          (optionsMap [js ''tests'' \<mapsto> Boolean True] (js ''demo'')))))
   \<and> (\<exists>r w. lookup (snd (run (generateOptionalFiles sampleTexts []
          (optionsMap [js ''tests'' \<mapsto> Boolean True, js ''docker'' \<mapsto> Boolean True] (js ''demo'')))
        projectDisk)) [js ''requirements.txt'']
       = Some (File (requirementsTxt [js ''tests'' \<mapsto> Boolean True, js ''docker'' \<mapsto> Boolean True])
            r w))
   \<and> manifestPackages [js ''tests'' \<mapsto> Boolean True]
     \<subseteq> manifestPackages [js ''tests'' \<mapsto> Boolean True, js ''docker'' \<mapsto> Boolean True]"
proof -
  let ?A = "[js ''tests'' \<mapsto> Boolean True]"
  let ?B = "[js ''tests'' \<mapsto> Boolean True, js ''docker'' \<mapsto> Boolean True]"
  let ?run = "run (generateOptionalFiles sampleTexts [] (optionsMap ?B (js ''demo''))) projectDisk"
  have 1: "enabledKeys ?A \<subseteq> enabledKeys ?B"
    by (auto simp: enabledKeys_def js_def split: if_splits)
  have 2: "(notFalse (?A (js ''tests'')) \<longrightarrow> notFalse (?B (js ''tests'')))
        \<and> (notFalse (?A (js ''envFiles'')) \<longrightarrow> notFalse (?B (js ''envFiles'')))"
    by (simp add: notFalse_def js_def)
  note c = generation_monotone [OF 1, of sampleTexts "[]" "js ''demo''"]
  have r: "fst ?run = None"
    by (simp add: generateOptionalFiles_def optionsMap_def sampleTexts_def Let_def projectDisk_def
      generateRequirementsTxt_def generateMainPy_def generateConfigPy_def generateTestFiles_def
      generateDockerFiles_def writeFile_def replacePlaceholders_def js_def)
  have r': "?run = (None, snd ?run)"
    using prod.collapse [of ?run, symmetric] unfolding r .
  note d = c [THEN conjunct2, THEN conjunct1, rule_format, OF r', unfolded append_Nil]
  have p: "manifestPackages ?A \<subseteq> manifestPackages ?B"
    using c [THEN conjunct2, THEN conjunct2, rule_format, OF 2] .
  have f: "list_all (pathExists (snd ?run))
      (concat (map writeTargets (generateOptionalFiles sampleTexts [] (optionsMap ?A (js ''demo'')))))"
    unfolding list_all_iff using d [THEN conjunct1] unfolding writtenFiles_def .
  show ?thesis
    using 1 c [THEN conjunct1] r f d [THEN conjunct2] p
    by (intro conjI)
qed

end
